theory Spec2Isabelle
  imports Complex_Main
begin

section \<open>Session journal (session-journal.ts)\<close>

subsection \<open>Types\<close>

text \<open>
  \<^verbatim>\<open>CleanMessage = { role: "user" | "assistant"; text: string }\<close>.
  Fields carry a prefix because \<open>text\<close> is reserved in theory sources.
\<close>

datatype role = User | Assistant

record CleanMessage =
  msg_role :: role
  msg_text :: string

datatype action = Store | Forget | Update

record MemoryLogEntry =
  deltaIndex :: int
  action :: action
  memoryId :: string
  log_text :: string
  timestamp :: int

record JournalData =
  processedIndex :: int
  cleanContext :: "CleanMessage list"
  memoryLogs :: "MemoryLogEntry list"

text \<open>
  What a file on disk holds, as far as \<^verbatim>\<open>JSON.parse(raw) as JournalData\<close> can tell:
  the complete serialisation of a journal (\<^verbatim>\<open>JSON.stringify(data, null, 2)\<close>), a proper
  prefix of such a serialisation (an interrupted \<^verbatim>\<open>writeFile\<close>; not valid JSON), or any
  other text that \<^verbatim>\<open>JSON.parse\<close> rejects.
\<close>

datatype file_content =
    Json JournalData
  | Partial JournalData
  | Garbage string

datatype io_error = ENOENT | SyntaxError

type_synonym files = "string \<rightharpoonup> file_content"

text \<open>
  The journal object: the in-memory cache keyed by the raw session key, the sessions
  directory, and the files it reads and writes. The promise queues only order the
  operations of a key; here every operation runs to completion before the next starts.
\<close>

record journal_state =
  sessionsDir :: string
  cache :: "string \<rightharpoonup> JournalData"
  files :: files

subsection \<open>Paths\<close>

text \<open>The character class \<^verbatim>\<open>[a-zA-Z0-9_-]\<close> of \<^verbatim>\<open>journalPath\<close>.\<close>

definition safe_char :: "char \<Rightarrow> bool" where
  "safe_char c =
     (let n = (of_char c :: nat) in
        (97 \<le> n \<and> n \<le> 122) \<or> (65 \<le> n \<and> n \<le> 90) \<or> (48 \<le> n \<and> n \<le> 57)
        \<or> n = 95 \<or> n = 45)"

text \<open>\<^verbatim>\<open>sessionKey.replace(/[^a-zA-Z0-9_-]/g, "_")\<close>\<close>

definition sanitize :: "string \<Rightarrow> string" where
  "sanitize sessionKey = map (\<lambda>c. if safe_char c then c else CHR ''_'') sessionKey"

text \<open>
  \<^verbatim>\<open>join(this.sessionsDir, `${safe}.json`)\<close>: the file name has no separator and no
  dot segment, so joining appends it after one separator.
\<close>

definition journalPath :: "string \<Rightarrow> string \<Rightarrow> string" where
  "journalPath dir sessionKey = dir @ ''/'' @ sanitize sessionKey @ ''.json''"

text \<open>\<^verbatim>\<open>`${filePath}.${randomUUID().slice(0, 8)}.tmp`\<close>; the UUID is an input.\<close>

definition tmpPathOf :: "string \<Rightarrow> string \<Rightarrow> string" where
  "tmpPathOf filePath uuid = filePath @ ''.'' @ take 8 uuid @ ''.tmp''"

subsection \<open>File operations\<close>

definition readFile :: "files \<Rightarrow> string \<Rightarrow> io_error + file_content" where
  "readFile fs p = (case fs p of None \<Rightarrow> Inl ENOENT | Some c \<Rightarrow> Inr c)"

fun JSON_parse :: "file_content \<Rightarrow> io_error + JournalData" where
  "JSON_parse (Json d) = Inr d"
| "JSON_parse (Partial d) = Inl SyntaxError"
| "JSON_parse (Garbage s) = Inl SyntaxError"

text \<open>
  The three file-system calls of \<^verbatim>\<open>save\<close>; each is taken to succeed. Directories are
  not part of the file map, so \<open>Mkdir\<close> leaves it as it is. \<open>Rename\<close> replaces the
  target in one step; with no source it changes nothing (\<^verbatim>\<open>save\<close> renames only what it
  has just written).
\<close>

datatype fs_op =
    Mkdir string
  | WriteFile string JournalData
  | Rename string string

fun fs_apply :: "fs_op \<Rightarrow> files \<Rightarrow> files" where
  "fs_apply (Mkdir d) fs = fs"
| "fs_apply (WriteFile p d) fs = fs(p \<mapsto> Json d)"
| "fs_apply (Rename src dst) fs =
     (case fs src of None \<Rightarrow> fs | Some c \<Rightarrow> (fs(dst \<mapsto> c))(src := None))"

text \<open>What the files can look like when a call is interrupted while it runs.\<close>

fun fs_interrupted :: "fs_op \<Rightarrow> files \<Rightarrow> files list" where
  "fs_interrupted (Mkdir d) fs = []"
| "fs_interrupted (WriteFile p d) fs = [fs(p \<mapsto> Partial d)]"
| "fs_interrupted (Rename src dst) fs = []"

fun run_ops :: "fs_op list \<Rightarrow> files \<Rightarrow> files" where
  "run_ops [] fs = fs"
| "run_ops (x # xs) fs = run_ops xs (fs_apply x fs)"

text \<open>Every state of the files in which a sequence of calls can be cut off.\<close>

fun crash_states :: "fs_op list \<Rightarrow> files \<Rightarrow> files list" where
  "crash_states [] fs = [fs]"
| "crash_states (x # xs) fs = fs # fs_interrupted x fs @ crash_states xs (fs_apply x fs)"

subsection \<open>SessionJournal\<close>

definition fresh_journal :: JournalData where
  "fresh_journal = \<lparr>processedIndex = 0, cleanContext = [], memoryLogs = []\<rparr>"

text \<open>
  The two calls of the \<^verbatim>\<open>try\<close> block of \<^verbatim>\<open>load\<close> that can throw:
  \<^verbatim>\<open>JSON.parse(await fs.readFile(filePath, "utf-8"))\<close>.
\<close>

definition read_journal :: "files \<Rightarrow> string \<Rightarrow> io_error + JournalData" where
  "read_journal fs filePath =
     (case readFile fs filePath of
        Inl e \<Rightarrow> Inl e
      | Inr raw \<Rightarrow> JSON_parse raw)"

definition load :: "journal_state \<Rightarrow> string \<Rightarrow> JournalData \<times> journal_state" where
  "load S sessionKey =
     (case cache S sessionKey of
        Some cached \<Rightarrow> (cached, S)
      | None \<Rightarrow>
          (let filePath = journalPath (sessionsDir S) sessionKey in
           case read_journal (files S) filePath of
             Inr data \<Rightarrow> (data, S\<lparr>cache := (cache S)(sessionKey \<mapsto> data)\<rparr>)
           | Inl e \<Rightarrow> (fresh_journal, S\<lparr>cache := (cache S)(sessionKey \<mapsto> fresh_journal)\<rparr>)))"

text \<open>
  The calls \<^verbatim>\<open>save\<close> makes, in order. \<^verbatim>\<open>dirname(filePath)\<close> is the sessions
  directory, the file name holding no separator.
\<close>

definition save_ops :: "string \<Rightarrow> string \<Rightarrow> JournalData \<Rightarrow> string \<Rightarrow> fs_op list" where
  "save_ops dir sessionKey data uuid =
     (let filePath = journalPath dir sessionKey;
          tmpPath = tmpPathOf filePath uuid
      in [Mkdir dir, WriteFile tmpPath data, Rename tmpPath filePath])"

definition save :: "journal_state \<Rightarrow> string \<Rightarrow> JournalData \<Rightarrow> string \<Rightarrow> journal_state" where
  "save S sessionKey data uuid =
     (let S1 = S\<lparr>cache := (cache S)(sessionKey \<mapsto> data)\<rparr>
      in S1\<lparr>files := run_ops (save_ops (sessionsDir S) sessionKey data uuid) (files S1)\<rparr>)"

text \<open>\<^verbatim>\<open>`${m.role}:${m.text}`\<close>\<close>

fun role_str :: "role \<Rightarrow> string" where
  "role_str User = ''user''"
| "role_str Assistant = ''assistant''"

definition msg_key :: "CleanMessage \<Rightarrow> string" where
  "msg_key m = role_str (msg_role m) @ '':'' @ msg_text m"

text \<open>\<^verbatim>\<open>Array.prototype.slice(start)\<close> for an integer \<open>start\<close>.\<close>

definition slice :: "'a list \<Rightarrow> int \<Rightarrow> 'a list" where
  "slice xs start =
     (let len = int (length xs);
          k = (if start < 0 then max (len + start) 0 else min start len)
      in drop (nat k) xs)"

record append_result =
  journal :: JournalData
  delta :: "CleanMessage list"

definition appendMessages ::
  "journal_state \<Rightarrow> string \<Rightarrow> CleanMessage list \<Rightarrow> string \<Rightarrow> append_result \<times> journal_state" where
  "appendMessages S sessionKey messages uuid =
     (case load S sessionKey of (jd, S1) \<Rightarrow>
        let existing = set (map msg_key (cleanContext jd));
            fresh = filter (\<lambda>m. msg_key m \<notin> existing) messages
        in if length fresh > 0
           then let jd' = jd\<lparr>cleanContext := cleanContext jd @ fresh\<rparr>
                in (\<lparr>journal = jd', delta = slice (cleanContext jd') (processedIndex jd')\<rparr>,
                    save S1 sessionKey jd' uuid)
           else (\<lparr>journal = jd, delta = slice (cleanContext jd) (processedIndex jd)\<rparr>, S1))"

definition commitDecisions ::
  "journal_state \<Rightarrow> string \<Rightarrow> MemoryLogEntry list \<Rightarrow> int \<Rightarrow> string \<Rightarrow> journal_state" where
  "commitDecisions S sessionKey logs newProcessedIndex uuid =
     (case load S sessionKey of (jd, S1) \<Rightarrow>
        let jd1 = jd\<lparr>memoryLogs := memoryLogs jd @ logs\<rparr>;
            jd2 = jd1\<lparr>processedIndex := newProcessedIndex\<rparr>
        in save S1 sessionKey jd2 uuid)"

text \<open>A journal object right after construction, over the files \<open>fs\<close>.\<close>

definition new_journal :: "string \<Rightarrow> files \<Rightarrow> journal_state" where
  "new_journal dir fs = \<lparr>sessionsDir = dir, cache = Map.empty, files = fs\<rparr>"

definition no_files :: files where
  "no_files = Map.empty"

section \<open>Decision maker (llm-decision-maker.ts)\<close>

text \<open>
  The class \<^verbatim>\<open>LLMDecisionMaker\<close> that talks to the model through a
  \<^verbatim>\<open>ChatAdapter\<close> and handles each tool call in \<^verbatim>\<open>handleToolCall\<close>.
\<close>

subsection \<open>JavaScript values\<close>

text \<open>
  The values \<^verbatim>\<open>JSON.parse\<close> produces. A number is kept as an exact rational or
  \<open>NaN\<close>; the code only passes numbers on.
\<close>

datatype number = NaN | Num rat

datatype jsval =
    JNull
  | JBool bool
  | JNum number
  | JStr string
  | JArr "jsval list"
  | JObj "(string \<times> jsval) list"

text \<open>
  Formatting a number and reading a number from a string are the runtime's; they are
  parameters of the model.
\<close>

record js_builtins =
  NumberToString :: "number \<Rightarrow> string"
  StringToNumber :: "string \<Rightarrow> number"

fun join_with :: "string \<Rightarrow> string list \<Rightarrow> string" where
  "join_with sep [] = []"
| "join_with sep [x] = x"
| "join_with sep (x # y # ys) = x @ sep @ join_with sep (y # ys)"

text \<open>
  The first error of a list of results, or all the values.
\<close>

fun collect :: "(string + 'a) list \<Rightarrow> string + 'a list" where
  "collect [] = Inr []"
| "collect (Inl e # rs) = Inl e"
| "collect (Inr x # rs) = (case collect rs of Inl e \<Rightarrow> Inl e | Inr xs \<Rightarrow> Inr (x # xs))"

text \<open>
  \<^verbatim>\<open>String(v)\<close>; \<open>Inl\<close> is the message of the TypeError it throws. An object is turned
  into a primitive by its \<^verbatim>\<open>toString\<close>, then its \<^verbatim>\<open>valueOf\<close>. A parsed object inherits
  both; an own property of either name holds a parsed value, which cannot be called. So
  an object with an own \<^verbatim>\<open>toString\<close> cannot be converted (the inherited \<^verbatim>\<open>valueOf\<close>
  gives the object back), and any other object is \<^verbatim>\<open>[object Object]\<close>. An array joins
  the strings of its elements, \<^verbatim>\<open>null\<close> counting as empty, and throws what the first
  failing element throws.
\<close>

fun js_String :: "js_builtins \<Rightarrow> jsval \<Rightarrow> string + string" where
  "js_String B JNull = Inr ''null''"
| "js_String B (JBool b) = Inr (if b then ''true'' else ''false'')"
| "js_String B (JNum n) = Inr (NumberToString B n)"
| "js_String B (JStr s) = Inr s"
| "js_String B (JArr xs) =
     (case collect (map (\<lambda>x. if x = JNull then Inr [] else js_String B x) xs) of
        Inl e \<Rightarrow> Inl e
      | Inr parts \<Rightarrow> Inr (join_with '','' parts))"
| "js_String B (JObj kvs) =
     (if ''toString'' \<in> fst ` set kvs then Inl ''Cannot convert object to primitive value''
      else Inr ''[object Object]'')"

text \<open>
  \<^verbatim>\<open>Number(v)\<close>. An array or an object is turned into a primitive by its
  \<^verbatim>\<open>valueOf\<close>, which gives the object back or cannot be called, then by its
  \<^verbatim>\<open>toString\<close>; the string is read as a number.
\<close>

fun js_Number :: "js_builtins \<Rightarrow> jsval \<Rightarrow> string + number" where
  "js_Number B JNull = Inr (Num 0)"
| "js_Number B (JBool b) = Inr (if b then Num 1 else Num 0)"
| "js_Number B (JNum n) = Inr n"
| "js_Number B (JStr s) = Inr (StringToNumber B s)"
| "js_Number B (JArr xs) =
     (case js_String B (JArr xs) of Inl e \<Rightarrow> Inl e | Inr s \<Rightarrow> Inr (StringToNumber B s))"
| "js_Number B (JObj kvs) =
     (case js_String B (JObj kvs) of Inl e \<Rightarrow> Inl e | Inr s \<Rightarrow> Inr (StringToNumber B s))"

text \<open>
  \<^verbatim>\<open>args.name\<close> for the four names the code reads (\<open>text\<close>, \<open>category\<close>,
  \<open>importance\<close>, \<open>memoryId\<close>): \<open>None\<close> is \<^verbatim>\<open>undefined\<close>; reading a property of
  \<^verbatim>\<open>null\<close> throws a TypeError. In an object literal with a repeated key the last wins.
\<close>

fun get_prop :: "jsval \<Rightarrow> string \<Rightarrow> string + jsval option" where
  "get_prop JNull name = Inl (''Cannot read properties of null (reading '' @ [CHR 0x27] @ name @ [CHR 0x27] @ '')'')"
| "get_prop (JObj kvs) name = Inr (map_of (rev kvs) name)"
| "get_prop v name = Inr None"

text \<open>\<^verbatim>\<open>v ?? d\<close>\<close>

fun nullish :: "jsval option \<Rightarrow> jsval \<Rightarrow> jsval" where
  "nullish None d = d"
| "nullish (Some JNull) d = d"
| "nullish (Some v) d = v"

subsection \<open>Adapter, memory operations, effects\<close>

record ToolCallRequest =
  tc_id :: string
  tc_name :: string
  tc_args :: jsval

record AdapterResponse =
  toolCalls :: "ToolCallRequest list"
  resp_done :: bool

text \<open>
  \<^verbatim>\<open>interface ChatAdapter\<close> over an adapter state \<open>'a\<close>. \<open>complete\<close> answers with the
  message of what it throws (\<open>Inl\<close>) or with a response. \<open>newAdapter\<close> is the constructor
  call of \<^verbatim>\<open>evaluate\<close>, the API kind, model, key, base URL and system prompt fixed in it.
\<close>

record 'a ChatAdapter =
  newAdapter :: "string \<Rightarrow> 'a"
  complete :: "'a \<Rightarrow> (string + AdapterResponse) \<times> 'a"
  pushToolResult :: "string \<Rightarrow> string \<Rightarrow> bool \<Rightarrow> 'a \<Rightarrow> 'a"

text \<open>
  \<^verbatim>\<open>type MemoryOps\<close> over a store \<open>'d\<close>; \<open>Inl\<close> carries the message of the error thrown.
\<close>

record 'd MemoryOps =
  mem_store :: "string \<Rightarrow> string \<Rightarrow> number \<Rightarrow> 'd \<Rightarrow> (string + string) \<times> 'd"
  mem_forget :: "string \<Rightarrow> 'd \<Rightarrow> (string + bool) \<times> 'd"
  mem_update :: "string \<Rightarrow> string \<Rightarrow> string \<Rightarrow> number \<Rightarrow> 'd \<Rightarrow> (string + string) \<times> 'd"

record ('a, 'd) decision_maker =
  builtins :: js_builtins
  chat :: "'a ChatAdapter"
  ops :: "'d MemoryOps"

text \<open>Calls that leave \<^verbatim>\<open>evaluate\<close>, in the order they are made.\<close>

datatype event =
    Complete
  | PushToolResult string string bool
  | OpsStore string string number
  | OpsForget string
  | OpsUpdate string string string number
  | LoggerInfo string
  | LoggerWarn string

record ('a, 'd) world =
  adapter :: 'a
  db :: 'd
  trace :: "event list"

definition emit :: "event \<Rightarrow> ('a, 'd) world \<Rightarrow> ('a, 'd) world" where
  "emit e w = w\<lparr>trace := trace w @ [e]\<rparr>"

definition call_complete ::
  "('a, 'd) decision_maker \<Rightarrow> ('a, 'd) world \<Rightarrow> (string + AdapterResponse) \<times> ('a, 'd) world" where
  "call_complete M w =
     (case complete (chat M) (adapter w) of
        (r, a) \<Rightarrow> (r, emit Complete (w\<lparr>adapter := a\<rparr>)))"

definition call_pushToolResult ::
  "('a, 'd) decision_maker \<Rightarrow> string \<Rightarrow> string \<Rightarrow> bool \<Rightarrow> ('a, 'd) world \<Rightarrow> ('a, 'd) world" where
  "call_pushToolResult M toolCallId content isError w =
     emit (PushToolResult toolCallId content isError)
       (w\<lparr>adapter := pushToolResult (chat M) toolCallId content isError (adapter w)\<rparr>)"

definition call_store ::
  "('a, 'd) decision_maker \<Rightarrow> string \<Rightarrow> string \<Rightarrow> number \<Rightarrow> ('a, 'd) world \<Rightarrow> (string + string) \<times> ('a, 'd) world" where
  "call_store M t category importance w =
     (case mem_store (ops M) t category importance (db w) of
        (r, d) \<Rightarrow> (r, emit (OpsStore t category importance) (w\<lparr>db := d\<rparr>)))"

definition call_forget ::
  "('a, 'd) decision_maker \<Rightarrow> string \<Rightarrow> ('a, 'd) world \<Rightarrow> (string + bool) \<times> ('a, 'd) world" where
  "call_forget M mid w =
     (case mem_forget (ops M) mid (db w) of
        (r, d) \<Rightarrow> (r, emit (OpsForget mid) (w\<lparr>db := d\<rparr>)))"

definition call_update ::
  "('a, 'd) decision_maker \<Rightarrow> string \<Rightarrow> string \<Rightarrow> string \<Rightarrow> number \<Rightarrow> ('a, 'd) world \<Rightarrow> (string + string) \<times> ('a, 'd) world" where
  "call_update M mid t category importance w =
     (case mem_update (ops M) mid t category importance (db w) of
        (r, d) \<Rightarrow> (r, emit (OpsUpdate mid t category importance) (w\<lparr>db := d\<rparr>)))"

subsection \<open>LLMDecisionMaker\<close>

definition MAX_TOOL_ITERATIONS :: nat where
  "MAX_TOOL_ITERATIONS = 5"

fun action_str :: "action \<Rightarrow> string" where
  "action_str Store = ''store''"
| "action_str Forget = ''forget''"
| "action_str Update = ''update''"

text \<open>
  \<^verbatim>\<open>String(args.name ?? dflt)\<close> and \<^verbatim>\<open>Number(args.name ?? dflt)\<close>; \<open>Inl\<close> when reading
  the property or converting the value throws.
\<close>

definition arg_String :: "js_builtins \<Rightarrow> jsval \<Rightarrow> string \<Rightarrow> string \<Rightarrow> string + string" where
  "arg_String B args name dflt =
     (case get_prop args name of
        Inl e \<Rightarrow> Inl e
      | Inr v \<Rightarrow> js_String B (nullish v (JStr dflt)))"

definition arg_Number :: "js_builtins \<Rightarrow> jsval \<Rightarrow> string \<Rightarrow> number \<Rightarrow> string + number" where
  "arg_Number B args name dflt =
     (case get_prop args name of
        Inl e \<Rightarrow> Inl e
      | Inr v \<Rightarrow> js_Number B (nullish v (JNum dflt)))"

text \<open>The \<^verbatim>\<open>"store_memory"\<close> case of \<^verbatim>\<open>executeTool\<close>.\<close>

definition exec_store ::
  "('a, 'd) decision_maker \<Rightarrow> jsval \<Rightarrow> int \<Rightarrow> ('a, 'd) world
     \<Rightarrow> (string + MemoryLogEntry option) \<times> ('a, 'd) world" where
  "exec_store M args di w =
     (case arg_String (builtins M) args ''text'' [] of Inl e \<Rightarrow> (Inl e, w) | Inr t \<Rightarrow>
     (case arg_String (builtins M) args ''category'' ''other'' of Inl e \<Rightarrow> (Inl e, w) | Inr category \<Rightarrow>
     (case arg_Number (builtins M) args ''importance'' (Num (7 / 10)) of Inl e \<Rightarrow> (Inl e, w) | Inr importance \<Rightarrow>
        if t = [] then (Inl ''text is required for store_memory'', w)
        else
          (case call_store M t category importance w of
             (Inl e, w1) \<Rightarrow> (Inl e, w1)
           | (Inr mid, w1) \<Rightarrow>
               (Inr (Some \<lparr>deltaIndex = di, action = Store, memoryId = mid,
                            log_text = t, timestamp = 0\<rparr>),
                emit (LoggerInfo (''memory-lancedb: stored '' @ take 8 mid @ '': ''
                        @ [CHR 0x22] @ take 60 t @ [CHR 0x22])) w1)))))"

text \<open>The \<^verbatim>\<open>"forget_memory"\<close> case.\<close>

definition exec_forget ::
  "('a, 'd) decision_maker \<Rightarrow> jsval \<Rightarrow> int \<Rightarrow> ('a, 'd) world
     \<Rightarrow> (string + MemoryLogEntry option) \<times> ('a, 'd) world" where
  "exec_forget M args di w =
     (case arg_String (builtins M) args ''memoryId'' [] of Inl e \<Rightarrow> (Inl e, w) | Inr mid \<Rightarrow>
        if mid = [] then (Inl ''memoryId is required for forget_memory'', w)
        else
          (case call_forget M mid w of
             (Inl e, w1) \<Rightarrow> (Inl e, w1)
           | (Inr b, w1) \<Rightarrow>
               (Inr (Some \<lparr>deltaIndex = di, action = Forget, memoryId = mid,
                            log_text = [], timestamp = 0\<rparr>),
                emit (LoggerInfo (''memory-lancedb: forgot '' @ take 8 mid)) w1)))"

text \<open>
  The \<^verbatim>\<open>"update_memory"\<close> case. The arrow of its log line is written as the three
  bytes of its UTF-8 form.
\<close>

definition exec_update ::
  "('a, 'd) decision_maker \<Rightarrow> jsval \<Rightarrow> int \<Rightarrow> ('a, 'd) world
     \<Rightarrow> (string + MemoryLogEntry option) \<times> ('a, 'd) world" where
  "exec_update M args di w =
     (case arg_String (builtins M) args ''memoryId'' [] of Inl e \<Rightarrow> (Inl e, w) | Inr mid \<Rightarrow>
     (case arg_String (builtins M) args ''text'' [] of Inl e \<Rightarrow> (Inl e, w) | Inr t \<Rightarrow>
     (case arg_String (builtins M) args ''category'' ''other'' of Inl e \<Rightarrow> (Inl e, w) | Inr category \<Rightarrow>
     (case arg_Number (builtins M) args ''importance'' (Num (7 / 10)) of Inl e \<Rightarrow> (Inl e, w) | Inr importance \<Rightarrow>
        if mid = [] then (Inl ''memoryId is required for update_memory'', w)
        else if t = [] then (Inl ''text is required for update_memory'', w)
        else
          (case call_update M mid t category importance w of
             (Inl e, w1) \<Rightarrow> (Inl e, w1)
           | (Inr newId, w1) \<Rightarrow>
               (Inr (Some \<lparr>deltaIndex = di, action = Update, memoryId = newId,
                            log_text = t, timestamp = 0\<rparr>),
                emit (LoggerInfo (''memory-lancedb: updated '' @ take 8 mid
                        @ [CHR 0x20, CHR 0xE2, CHR 0x86, CHR 0x92, CHR 0x20] @ take 8 newId)) w1))))))"

definition executeTool ::
  "('a, 'd) decision_maker \<Rightarrow> string \<Rightarrow> jsval \<Rightarrow> int \<Rightarrow> ('a, 'd) world
     \<Rightarrow> (string + MemoryLogEntry option) \<times> ('a, 'd) world" where
  "executeTool M name args di w =
     (if name = ''store_memory'' then exec_store M args di w
      else if name = ''forget_memory'' then exec_forget M args di w
      else if name = ''update_memory'' then exec_update M args di w
      else (Inl (''Unknown tool: '' @ name), w))"

definition handleToolCall ::
  "('a, 'd) decision_maker \<Rightarrow> ToolCallRequest \<Rightarrow> int \<Rightarrow> int \<Rightarrow> ('a, 'd) world
     \<Rightarrow> MemoryLogEntry option \<times> ('a, 'd) world" where
  "handleToolCall M tc di now w =
     (case executeTool M (tc_name tc) (tc_args tc) di w of
        (Inr r, w1) \<Rightarrow>
          let log = map_option (\<lambda>l. l\<lparr>timestamp := now\<rparr>) r;
              resultText =
                (case log of
                   Some l \<Rightarrow> ''Success: '' @ action_str (action l) @ '' memory '' @ memoryId l
                 | None \<Rightarrow> ''No action taken.'')
          in (log, call_pushToolResult M (tc_id tc) resultText False w1)
      | (Inl err, w1) \<Rightarrow>
          let resultText = ''Error: '' @ err;
              w2 = emit (LoggerWarn (''memory-lancedb: tool '' @ tc_name tc @ '' failed: ''
                                       @ resultText)) w1
          in (None, call_pushToolResult M (tc_id tc) resultText True w2))"

text \<open>
  \<^verbatim>\<open>for (const tc of response.toolCalls) { const log = ...; if (log) logs.push(log); }\<close>
\<close>

fun handle_calls ::
  "('a, 'd) decision_maker \<Rightarrow> int \<Rightarrow> int \<Rightarrow> ToolCallRequest list \<Rightarrow> MemoryLogEntry list
     \<Rightarrow> ('a, 'd) world \<Rightarrow> MemoryLogEntry list \<times> ('a, 'd) world" where
  "handle_calls M di now [] ls w = (ls, w)"
| "handle_calls M di now (tc # tcs) ls w =
     (case handleToolCall M tc di now w of
        (None, w1) \<Rightarrow> handle_calls M di now tcs ls w1
      | (Some l, w1) \<Rightarrow> handle_calls M di now tcs (ls @ [l]) w1)"

text \<open>The \<^verbatim>\<open>for (let iter = 0; iter < MAX_TOOL_ITERATIONS; iter++)\<close> loop.\<close>

function evaluate_loop ::
  "('a, 'd) decision_maker \<Rightarrow> JournalData \<Rightarrow> int \<Rightarrow> nat \<Rightarrow> MemoryLogEntry list
     \<Rightarrow> ('a, 'd) world \<Rightarrow> (string + MemoryLogEntry list) \<times> ('a, 'd) world" where
  "evaluate_loop M jd now iter ls w =
     (if iter < MAX_TOOL_ITERATIONS then
        (case call_complete M w of
           (Inl err, w1) \<Rightarrow> (Inl err, w1)
         | (Inr response, w1) \<Rightarrow>
             if length (toolCalls response) = 0 \<or> resp_done response then
               (case handle_calls M (int (length (cleanContext jd))) now
                       (toolCalls response) ls w1 of
                  (ls', w2) \<Rightarrow> (Inr ls', w2))
             else
               (case handle_calls M (int (length (cleanContext jd))) now
                       (toolCalls response) ls w1 of
                  (ls', w2) \<Rightarrow> evaluate_loop M jd now (iter + 1) ls' w2))
      else (Inr ls, w))"
  by pat_completeness auto
termination
  by (relation "measure (\<lambda>(M, jd, now, iter, ls, w). MAX_TOOL_ITERATIONS - iter)") auto

declare evaluate_loop.simps [simp del]

definition newline :: string where
  "newline = [CHR 0x0A]"

definition buildPrompt :: "JournalData \<Rightarrow> CleanMessage list \<Rightarrow> string" where
  "buildPrompt jd dl =
     (let parts0 =
            (if length (cleanContext jd) > 0
             then [''[CONTEXT]'' @ newline @ join_with newline
                     (map (\<lambda>m. ''['' @ role_str (msg_role m) @ '']: '' @ msg_text m) (cleanContext jd))]
             else []);
          parts1 =
            (if length (memoryLogs jd) > 0
             then parts0 @ [''[MEMORY LOGS]'' @ newline @ join_with newline
                     (map (\<lambda>l. ''- '' @ action_str (action l) @ '' ['' @ take 8 (memoryId l)
                                  @ '']: '' @ take 80 (log_text l)) (memoryLogs jd))]
             else parts0 @ [''[MEMORY LOGS]'' @ newline
                              @ ''No memory operations in this session yet.'']);
          deltaLines = map (\<lambda>m. ''['' @ role_str (msg_role m) @ '']: '' @ msg_text m) dl;
          parts2 = parts1 @ [''[NEW DELTA]'' @ newline @ join_with newline deltaLines]
      in join_with (newline @ newline) parts2)"

record DecisionResult =
  logs :: "MemoryLogEntry list"

text \<open>
  \<^verbatim>\<open>evaluate(journal, delta)\<close> with the memory store \<open>d\<close> it starts from and the value
  \<open>now\<close> of \<^verbatim>\<open>Date.now()\<close>. It gives the result (\<open>Inl\<close>: the message of what it throws),
  the store afterwards and the calls it made.
\<close>

definition evaluate ::
  "('a, 'd) decision_maker \<Rightarrow> int \<Rightarrow> JournalData \<Rightarrow> CleanMessage list \<Rightarrow> 'd
     \<Rightarrow> (string + DecisionResult) \<times> 'd \<times> event list" where
  "evaluate M now jd dl d =
     (if length dl = 0 then (Inr \<lparr>logs = []\<rparr>, d, [])
      else
        let userPrompt = buildPrompt jd dl;
            w0 = \<lparr>adapter = newAdapter (chat M) userPrompt, db = d, trace = []\<rparr>
        in case evaluate_loop M jd now 0 [] w0 of
             (Inl err, w) \<Rightarrow> (Inl err, db w, trace w)
           | (Inr ls, w) \<Rightarrow> (Inr \<lparr>logs = ls\<rparr>, db w, trace w))"

section \<open>Callers, predicates and fixtures of the properties\<close>

subsection \<open>Sequences of journal calls\<close>

text \<open>One call of the journal's public interface, with the UUID its \<^verbatim>\<open>save\<close> would draw.\<close>

datatype journal_call =
    AppendMessages string "CleanMessage list" string
  | CommitDecisions string "MemoryLogEntry list" int string

fun run_call :: "journal_call \<Rightarrow> journal_state \<Rightarrow> journal_state" where
  "run_call (AppendMessages k ms u) S = snd (appendMessages S k ms u)"
| "run_call (CommitDecisions k ls n u) S = commitDecisions S k ls n u"

fun run_calls :: "journal_call list \<Rightarrow> journal_state \<Rightarrow> journal_state" where
  "run_calls [] S = S"
| "run_calls (c # cs) S = run_calls cs (run_call c S)"

text \<open>A property of every journal the object holds: each cached one and each one on file.\<close>

definition all_journals :: "(JournalData \<Rightarrow> bool) \<Rightarrow> journal_state \<Rightarrow> bool" where
  "all_journals P S =
     ((\<forall>k d. cache S k = Some d \<longrightarrow> P d) \<and> (\<forall>p d. files S p = Some (Json d) \<longrightarrow> P d))"

definition no_repeats :: "JournalData \<Rightarrow> bool" where
  "no_repeats d = distinct (cleanContext d)"

text \<open>No batch handed to \<^verbatim>\<open>appendMessages\<close> holds the same message twice.\<close>

fun batches_distinct :: "journal_call list \<Rightarrow> bool" where
  "batches_distinct [] = True"
| "batches_distinct (AppendMessages k ms u # cs) = (distinct ms \<and> batches_distinct cs)"
| "batches_distinct (CommitDecisions k ls n u # cs) = batches_distinct cs"

definition index_ok :: "JournalData \<Rightarrow> bool" where
  "index_ok d = (0 \<le> processedIndex d \<and> processedIndex d \<le> int (length (cleanContext d)))"

text \<open>
  Every \<^verbatim>\<open>commitDecisions\<close> of the sequence is given an index between 0 and the length
  the session's \<open>cleanContext\<close> has when the call runs.
\<close>

fun commits_in_range :: "journal_call list \<Rightarrow> journal_state \<Rightarrow> bool" where
  "commits_in_range [] S = True"
| "commits_in_range (AppendMessages k ms u # cs) S =
     commits_in_range cs (snd (appendMessages S k ms u))"
| "commits_in_range (CommitDecisions k ls n u # cs) S =
     (0 \<le> n \<and> n \<le> int (length (cleanContext (fst (load S k))))
      \<and> commits_in_range cs (commitDecisions S k ls n u))"

text \<open>A cached journal that is not the empty one has a parsable file behind it.\<close>

definition cache_backed :: "journal_state \<Rightarrow> bool" where
  "cache_backed S =
     (\<forall>k d. cache S k = Some d \<longrightarrow>
        d = fresh_journal \<or> (\<exists>c. files S (journalPath (sessionsDir S) k) = Some (Json c)))"

subsection \<open>Reading the trace of an evaluation\<close>

fun is_success :: "event \<Rightarrow> bool" where
  "is_success (PushToolResult i c isError) = (\<not> isError)"
| "is_success e = False"

definition success_results :: "event list \<Rightarrow> nat" where
  "success_results tr = length (filter is_success tr)"

definition complete_calls :: "event list \<Rightarrow> nat" where
  "complete_calls tr = count_list tr Complete"

fun is_exec_event :: "event \<Rightarrow> bool" where
  "is_exec_event (OpsStore t c i) = True"
| "is_exec_event (OpsForget m) = True"
| "is_exec_event (OpsUpdate m t c i) = True"
| "is_exec_event (LoggerInfo s) = True"
| "is_exec_event e = False"

definition extends_by :: "(event \<Rightarrow> bool) \<Rightarrow> event list \<Rightarrow> event list \<Rightarrow> bool" where
  "extends_by P tr tr' = (\<exists>evs. tr' = tr @ evs \<and> list_all P evs)"

subsection \<open>Fixtures\<close>

definition hi :: CleanMessage where
  "hi = \<lparr>msg_role = User, msg_text = ''hi''\<rparr>"

definition bye :: CleanMessage where
  "bye = \<lparr>msg_role = Assistant, msg_text = ''bye''\<rparr>"

definition dark_mode :: CleanMessage where
  "dark_mode = \<lparr>msg_role = User, msg_text = ''I like dark mode''\<rparr>"

definition stub_builtins :: js_builtins where
  "stub_builtins = \<lparr>NumberToString = (\<lambda>n. ''0''), StringToNumber = (\<lambda>s. NaN)\<rparr>"

text \<open>An adapter that plays a script of answers and then reports it is done.\<close>

definition scripted_chat ::
  "(string + AdapterResponse) list \<Rightarrow> (string + AdapterResponse) list ChatAdapter" where
  "scripted_chat script =
     \<lparr>newAdapter = (\<lambda>prompt. script),
      complete = (\<lambda>a. case a of
                         [] \<Rightarrow> (Inr \<lparr>toolCalls = [], resp_done = True\<rparr>, [])
                       | r # rs \<Rightarrow> (r, rs)),
      pushToolResult = (\<lambda>i c e a. a)\<rparr>"

text \<open>
  A memory store that holds the stored texts, names every memory \<open>abc123\<close>, refuses a
  text it already holds and knows no other id.
\<close>

definition stub_ops :: "string list MemoryOps" where
  "stub_ops =
     \<lparr>mem_store = (\<lambda>t c i d. if t \<in> set d then (Inl ''Similar memory already exists'', d)
                              else (Inr ''abc123'', d @ [t])),
      mem_forget = (\<lambda>m d. if m = ''abc123'' then (Inr True, d) else (Inl ''invalid id'', d)),
      mem_update = (\<lambda>m t c i d. if m = ''abc123'' then (Inr ''abc123'', d @ [t])
                                else (Inl ''invalid id'', d))\<rparr>"

definition scripted_maker ::
  "(string + AdapterResponse) list \<Rightarrow> ((string + AdapterResponse) list, string list) decision_maker" where
  "scripted_maker script =
     \<lparr>builtins = stub_builtins, chat = scripted_chat script, ops = stub_ops\<rparr>"

text \<open>
  An adapter that plays a script like the one above and keeps every tool result pushed
  to it, in order, as the adapters of the code keep them in their transcript.
\<close>

definition recording_chat ::
  "(string + AdapterResponse) list
     \<Rightarrow> ((string + AdapterResponse) list \<times> (string \<times> string \<times> bool) list) ChatAdapter" where
  "recording_chat script =
     \<lparr>newAdapter = (\<lambda>prompt. (script, [])),
      complete = (\<lambda>a. case fst a of
                         [] \<Rightarrow> (Inr \<lparr>toolCalls = [], resp_done = True\<rparr>, ([], snd a))
                       | r # rs \<Rightarrow> (r, (rs, snd a))),
      pushToolResult = (\<lambda>i c e a. (fst a, snd a @ [(i, c, e)]))\<rparr>"

definition recording_maker ::
  "(string + AdapterResponse) list
     \<Rightarrow> ((string + AdapterResponse) list \<times> (string \<times> string \<times> bool) list, string list)
          decision_maker" where
  "recording_maker script =
     \<lparr>builtins = stub_builtins, chat = recording_chat script, ops = stub_ops\<rparr>"

definition store_call :: "string \<Rightarrow> jsval \<Rightarrow> ToolCallRequest" where
  "store_call i args = \<lparr>tc_id = i, tc_name = ''store_memory'', tc_args = args\<rparr>"

definition dark_mode_args :: jsval where
  "dark_mode_args =
     JObj [(''text'', JStr ''I like dark mode''), (''category'', JStr ''preference''),
           (''importance'', JNum (Num (8 / 10)))]"


section \<open>Properties of the session journal\<close>

subsection \<open>Loading and saving\<close>

lemma load_cache: "load S k = (jd, S1) \<Longrightarrow> cache S1 k = Some jd"
  by (auto simp: load_def Let_def split: option.splits sum.splits)

lemma save_cache: "cache (save S k d u) k = Some d"
  by (simp add: save_def Let_def)

lemma load_cached: "cache S k = Some d \<Longrightarrow> load S k = (d, S)"
  by (simp add: load_def)

lemma load_dir: "sessionsDir (snd (load S k)) = sessionsDir S"
  by (simp add: load_def Let_def split: option.split sum.split)

lemma load_files: "files (snd (load S k)) = files S"
  by (simp add: load_def Let_def split: option.split sum.split)

lemma tmpPath_neq: "tmpPathOf p u \<noteq> p"
  by (simp add: tmpPathOf_def)

lemma journalPath_last: "last (journalPath dir k) = CHR ''n''"
  by (simp add: journalPath_def)

lemma tmpPath_last: "last (tmpPathOf p u) = CHR ''p''"
  by (simp add: tmpPathOf_def)

lemma journalPath_not_tmp: "journalPath dir k \<noteq> tmpPathOf p u"
proof
  assume "journalPath dir k = tmpPathOf p u"
  then have "last (journalPath dir k) = last (tmpPathOf p u)" by simp
  then show False by (simp add: journalPath_last tmpPath_last)
qed

lemma run_save_ops:
  "run_ops (save_ops dir k d u) fs =
     (fs(journalPath dir k \<mapsto> Json d))(tmpPathOf (journalPath dir k) u := None)"
  by (auto simp: save_ops_def Let_def tmpPath_neq fun_eq_iff)

lemma save_files:
  "files (save S k d u) =
     ((files S)(journalPath (sessionsDir S) k \<mapsto> Json d))
       (tmpPathOf (journalPath (sessionsDir S) k) u := None)"
  by (simp add: save_def Let_def run_save_ops)

lemma save_cache_eq: "cache (save S k d u) = (cache S)(k \<mapsto> d)"
  by (simp add: save_def Let_def)

lemma save_dir: "sessionsDir (save S k d u) = sessionsDir S"
  by (simp add: save_def Let_def)

lemma JSON_parse_Inr: "JSON_parse c = Inr d \<longleftrightarrow> c = Json d"
  by (cases c) auto

lemma read_journal_Inr: "read_journal fs p = Inr d \<longleftrightarrow> fs p = Some (Json d)"
  by (auto simp: read_journal_def readFile_def JSON_parse_Inr split: option.splits)

subsection \<open>The key of a message\<close>

lemma msg_key_inj: "msg_key m = msg_key m' \<Longrightarrow> m = m'"
  by (cases m; cases m'; cases "msg_role m"; cases "msg_role m'") (auto simp: msg_key_def)

lemma msg_key_mem: "msg_key m \<in> msg_key ` A \<longleftrightarrow> m \<in> A"
  by (auto dest: msg_key_inj)

subsection \<open>The two operations, in terms of the journal they load\<close>

lemma appendMessages_eq:
  assumes "load S k = (jd, S1)"
  shows "journal (fst (appendMessages S k ms u)) =
           jd\<lparr>cleanContext := cleanContext jd @ filter (\<lambda>m. m \<notin> set (cleanContext jd)) ms\<rparr>"
    and "delta (fst (appendMessages S k ms u)) =
           slice (cleanContext jd @ filter (\<lambda>m. m \<notin> set (cleanContext jd)) ms) (processedIndex jd)"
    and "snd (appendMessages S k ms u) =
           (if filter (\<lambda>m. m \<notin> set (cleanContext jd)) ms = [] then S1
            else save S1 k (jd\<lparr>cleanContext := cleanContext jd
                                  @ filter (\<lambda>m. m \<notin> set (cleanContext jd)) ms\<rparr>) u)"
  using assms by (simp_all add: appendMessages_def Let_def msg_key_mem)

lemma appendMessages_delta:
  "delta (fst (appendMessages S k ms u)) =
     slice (cleanContext (journal (fst (appendMessages S k ms u))))
           (processedIndex (journal (fst (appendMessages S k ms u))))"
  by (simp add: appendMessages_def Let_def split: prod.split)

lemma commitDecisions_eq:
  assumes "load S k = (jd, S1)"
  shows "commitDecisions S k ls n u =
           save S1 k (jd\<lparr>memoryLogs := memoryLogs jd @ ls, processedIndex := n\<rparr>) u"
  using assms by (simp add: commitDecisions_def Let_def)

lemma commitDecisions_load:
  "fst (load (commitDecisions S k ls n u) k) =
     (fst (load S k))\<lparr>memoryLogs := memoryLogs (fst (load S k)) @ ls, processedIndex := n\<rparr>"
proof -
  obtain jd S1 where L: "load S k = (jd, S1)" by (cases "load S k")
  show ?thesis
    by (simp add: commitDecisions_eq [OF L] L load_cached [OF save_cache])
qed

lemma slice_empty_iff: "slice xs i = [] \<longleftrightarrow> xs = [] \<or> int (length xs) \<le> i"
  by (cases xs) (auto simp: slice_def Let_def max_def split: if_splits)

lemma appendMessages_twice:
  "appendMessages (snd (appendMessages S k ms u)) k ms u' = appendMessages S k ms u"
proof -
  obtain jd S1 where L: "load S k = (jd, S1)" by (cases "load S k")
  let ?fresh = "filter (\<lambda>m. msg_key m \<notin> set (map msg_key (cleanContext jd))) ms"
  show ?thesis
  proof (cases "?fresh = []")
    case True
    have first: "appendMessages S k ms u =
        (\<lparr>journal = jd, delta = slice (cleanContext jd) (processedIndex jd)\<rparr>, S1)"
      using L True by (simp add: appendMessages_def)
    have "load S1 k = (jd, S1)" using load_cache [OF L] by (rule load_cached)
    then have "appendMessages S1 k ms u' =
        (\<lparr>journal = jd, delta = slice (cleanContext jd) (processedIndex jd)\<rparr>, S1)"
      using True by (simp add: appendMessages_def)
    with first show ?thesis by simp
  next
    case False
    let ?jd' = "jd\<lparr>cleanContext := cleanContext jd @ ?fresh\<rparr>"
    let ?S2 = "save S1 k ?jd' u"
    have first: "appendMessages S k ms u =
        (\<lparr>journal = ?jd', delta = slice (cleanContext ?jd') (processedIndex ?jd')\<rparr>, ?S2)"
      using L False by (simp add: appendMessages_def Let_def)
    have "load ?S2 k = (?jd', ?S2)" by (rule load_cached) (rule save_cache)
    then have "appendMessages ?S2 k ms u' =
        (\<lparr>journal = ?jd', delta = slice (cleanContext ?jd') (processedIndex ?jd')\<rparr>, ?S2)"
      by (auto simp: appendMessages_def filter_empty_conv)
    with first show ?thesis by simp
  qed
qed

subsection \<open>Properties kept by every call\<close>

lemma all_journals_save:
  "all_journals P S \<Longrightarrow> P d \<Longrightarrow> all_journals P (save S k d u)"
  by (auto simp: all_journals_def save_files save_cache_eq split: if_splits)

lemma all_journals_load:
  assumes "all_journals P S" "P fresh_journal" "load S k = (jd, S1)"
  shows "P jd \<and> all_journals P S1"
  using assms
  by (auto simp: all_journals_def load_def Let_def read_journal_Inr
           split: option.splits sum.splits if_splits)

lemma all_journals_appendMessages:
  assumes "all_journals P S" "P fresh_journal"
    and step: "\<And>jd. P jd \<Longrightarrow>
      P (jd\<lparr>cleanContext := cleanContext jd @ filter (\<lambda>m. m \<notin> set (cleanContext jd)) ms\<rparr>)"
  shows "all_journals P (snd (appendMessages S k ms u))"
proof -
  obtain jd S1 where L: "load S k = (jd, S1)" by (cases "load S k")
  from all_journals_load [OF assms(1,2) L] have "P jd" "all_journals P S1" by simp_all
  then show ?thesis
    by (simp add: appendMessages_eq(3) [OF L] all_journals_save step)
qed

lemma all_journals_commitDecisions:
  assumes "all_journals P S" "P fresh_journal"
    and step: "\<And>jd. P jd \<Longrightarrow> jd = fst (load S k) \<Longrightarrow>
      P (jd\<lparr>memoryLogs := memoryLogs jd @ ls, processedIndex := n\<rparr>)"
  shows "all_journals P (commitDecisions S k ls n u)"
proof -
  obtain jd S1 where L: "load S k = (jd, S1)" by (cases "load S k")
  from all_journals_load [OF assms(1,2) L] have "P jd" "all_journals P S1" by simp_all
  then show ?thesis
    using L by (simp add: commitDecisions_eq [OF L] all_journals_save step)
qed

lemma no_repeats_run:
  "all_journals no_repeats S \<Longrightarrow> batches_distinct cs
     \<Longrightarrow> all_journals no_repeats (run_calls cs S)"
proof (induction cs arbitrary: S)
  case Nil
  then show ?case by simp
next
  case (Cons c cs)
  show ?case
  proof (cases c)
    case (AppendMessages k ms u)
    with Cons.prems have "distinct ms" "batches_distinct cs" by simp_all
    have "all_journals no_repeats (snd (appendMessages S k ms u))"
      by (rule all_journals_appendMessages [OF Cons.prems(1)])
         (auto simp: fresh_journal_def no_repeats_def \<open>distinct ms\<close>)
    then show ?thesis using Cons.IH \<open>batches_distinct cs\<close> AppendMessages by simp
  next
    case (CommitDecisions k ls n u)
    with Cons.prems have "batches_distinct cs" by simp
    have "all_journals no_repeats (commitDecisions S k ls n u)"
      by (rule all_journals_commitDecisions [OF Cons.prems(1)])
         (auto simp: fresh_journal_def no_repeats_def)
    then show ?thesis using Cons.IH \<open>batches_distinct cs\<close> CommitDecisions by simp
  qed
qed

lemma index_ok_run:
  "all_journals index_ok S \<Longrightarrow> commits_in_range cs S
     \<Longrightarrow> all_journals index_ok (run_calls cs S)"
proof (induction cs arbitrary: S)
  case Nil
  then show ?case by simp
next
  case (Cons c cs)
  show ?case
  proof (cases c)
    case (AppendMessages k ms u)
    with Cons.prems have R: "commits_in_range cs (snd (appendMessages S k ms u))" by simp
    have "all_journals index_ok (snd (appendMessages S k ms u))"
      by (rule all_journals_appendMessages [OF Cons.prems(1)])
         (auto simp: fresh_journal_def index_ok_def)
    then show ?thesis using Cons.IH R AppendMessages by simp
  next
    case (CommitDecisions k ls n u)
    with Cons.prems have R: "commits_in_range cs (commitDecisions S k ls n u)"
      and B: "0 \<le> n" "n \<le> int (length (cleanContext (fst (load S k))))" by simp_all
    have "all_journals index_ok (commitDecisions S k ls n u)"
      by (rule all_journals_commitDecisions [OF Cons.prems(1)])
         (use B in \<open>auto simp: fresh_journal_def index_ok_def\<close>)
    then show ?thesis using Cons.IH R CommitDecisions by simp
  qed
qed

lemma all_journals_new: "all_journals P (new_journal dir no_files)"
  by (simp add: all_journals_def new_journal_def no_files_def)

subsection \<open>The cache and the files behind it\<close>

lemma cache_backed_load: "cache_backed S \<Longrightarrow> cache_backed (snd (load S k))"
  by (auto simp: cache_backed_def load_def Let_def read_journal_Inr
           split: option.splits sum.splits if_splits)

lemma cache_backed_save: "cache_backed S \<Longrightarrow> cache_backed (save S k d u)"
  by (auto simp: cache_backed_def save_files save_cache_eq save_dir tmpPath_neq
                 journalPath_not_tmp split: if_splits)

lemma cache_backed_run_call: "cache_backed S \<Longrightarrow> cache_backed (run_call c S)"
proof (cases c)
  case (AppendMessages k ms u)
  assume B: "cache_backed S"
  obtain jd S1 where L: "load S k = (jd, S1)" by (cases "load S k")
  from cache_backed_load [OF B, of k] L have "cache_backed S1" by simp
  then show ?thesis
    by (simp add: AppendMessages appendMessages_eq(3) [OF L] cache_backed_save)
next
  case (CommitDecisions k ls n u)
  assume B: "cache_backed S"
  obtain jd S1 where L: "load S k = (jd, S1)" by (cases "load S k")
  from cache_backed_load [OF B, of k] L have "cache_backed S1" by simp
  then show ?thesis
    by (simp add: CommitDecisions commitDecisions_eq [OF L] cache_backed_save)
qed

lemma cache_backed_run_calls: "cache_backed S \<Longrightarrow> cache_backed (run_calls cs S)"
  by (induction cs arbitrary: S) (simp_all add: cache_backed_run_call)

lemma run_call_dir: "sessionsDir (run_call c S) = sessionsDir S"
proof (cases c)
  case (AppendMessages k ms u)
  obtain jd S1 where L: "load S k = (jd, S1)" by (cases "load S k")
  with load_dir [of S k] have "sessionsDir S1 = sessionsDir S" by simp
  then show ?thesis by (simp add: AppendMessages appendMessages_eq(3) [OF L] save_dir)
next
  case (CommitDecisions k ls n u)
  obtain jd S1 where L: "load S k = (jd, S1)" by (cases "load S k")
  with load_dir [of S k] have "sessionsDir S1 = sessionsDir S" by simp
  then show ?thesis by (simp add: CommitDecisions commitDecisions_eq [OF L] save_dir)
qed

lemma run_calls_dir: "sessionsDir (run_calls cs S) = sessionsDir S"
  by (induction cs arbitrary: S) (simp_all add: run_call_dir)

lemma load_unreadable:
  assumes "cache_backed S" "read_journal (files S) (journalPath (sessionsDir S) k) = Inl e"
  shows "fst (load S k) = fresh_journal"
proof (cases "cache S k")
  case None
  with assms(2) show ?thesis by (simp add: load_def Let_def)
next
  case (Some d)
  from assms(2) have "\<And>c. files S (journalPath (sessionsDir S) k) \<noteq> Some (Json c)"
    by (auto simp: read_journal_def readFile_def)
  with assms(1) Some have "d = fresh_journal" by (auto simp: cache_backed_def)
  with Some show ?thesis by (simp add: load_def)
qed

lemma crash_states_save:
  "fs' \<in> set (crash_states (save_ops dir k d u) fs) \<Longrightarrow>
     fs' (journalPath dir k) = fs (journalPath dir k) \<or> fs' (journalPath dir k) = Some (Json d)"
  using tmpPath_neq [of "journalPath dir k" u]
  by (auto simp: save_ops_def Let_def)

subsection \<open>Repeating a call of appendMessages\<close>

text \<open>
  Claim C1, as the code has it. Calling \<open>appendMessages\<close> a second time with the same key
  and the same messages, nothing in between, changes nothing: it gives the journal and
  the delta of the first call again and leaves the cache and the files as they were. The
  delta is the unprocessed suffix of \<open>cleanContext\<close>, so it is empty only when
  \<open>cleanContext\<close> is empty or \<open>processedIndex\<close> has reached its length.
\<close>

theorem appendMessages_repeat:
  "appendMessages (snd (appendMessages S k ms u)) k ms u' = appendMessages S k ms u
   \<and> (delta (fst (appendMessages S k ms u)) = []
        \<longleftrightarrow> cleanContext (journal (fst (appendMessages S k ms u))) = []
            \<or> int (length (cleanContext (journal (fst (appendMessages S k ms u)))))
                \<le> processedIndex (journal (fst (appendMessages S k ms u))))"
  by (simp add: appendMessages_twice appendMessages_delta [of S k ms u] slice_empty_iff)

text \<open>
  Claim C1 as stated fails: on a new journal, the second call with the one message
  \<open>hi\<close> returns that message as its delta again.
\<close>

theorem appendMessages_second_delta_counterexample:
  "delta (fst (appendMessages
                 (snd (appendMessages (new_journal ''d'' no_files) ''s'' [hi] ''u1''))
                 ''s'' [hi] ''u2'')) = [hi]"
  by (simp add: appendMessages_def load_def save_def save_ops_def new_journal_def no_files_def
                read_journal_def readFile_def Let_def slice_def msg_key_def hi_def
                fresh_journal_def)

subsection \<open>Deduplication\<close>

text \<open>
  Claim C2, as the code has it. \<open>appendMessages\<close> appends exactly the messages of the
  batch that are not in \<open>cleanContext\<close> before the call, in the batch's order; a batch
  whose messages are all present leaves \<open>cleanContext\<close> as it is. If no stored journal
  repeats a message and no batch repeats a message within itself, then after any sequence
  of calls no stored journal repeats a message.
\<close>

theorem cleanContext_dedup:
  "cleanContext (journal (fst (appendMessages S k ms u))) =
     cleanContext (fst (load S k)) @ filter (\<lambda>m. m \<notin> set (cleanContext (fst (load S k)))) ms
   \<and> (set ms \<subseteq> set (cleanContext (fst (load S k))) \<longrightarrow>
        cleanContext (journal (fst (appendMessages S k ms u))) = cleanContext (fst (load S k)))
   \<and> (all_journals no_repeats S0 \<and> batches_distinct cs \<longrightarrow>
        all_journals no_repeats (run_calls cs S0))"
proof -
  obtain jd S1 where L: "load S k = (jd, S1)" by (cases "load S k")
  have 1: "cleanContext (journal (fst (appendMessages S k ms u))) =
     cleanContext (fst (load S k)) @ filter (\<lambda>m. m \<notin> set (cleanContext (fst (load S k)))) ms"
    by (simp add: appendMessages_eq(1) [OF L] L)
  have 2: "set ms \<subseteq> set (cleanContext (fst (load S k))) \<longrightarrow>
        cleanContext (journal (fst (appendMessages S k ms u))) = cleanContext (fst (load S k))"
    unfolding 1 by (auto simp: filter_empty_conv)
  from 1 2 no_repeats_run [of S0 cs] show ?thesis by blast
qed

theorem cleanContext_dedup_witness:
  "cleanContext (journal (fst (appendMessages
       (snd (appendMessages (new_journal ''d'' no_files) ''s'' [hi, bye] ''u1''))
       ''s'' [hi] ''u2''))) = [hi, bye]
   \<and> all_journals no_repeats
        (run_calls [AppendMessages ''s'' [hi, bye] ''u1'', AppendMessages ''s'' [hi] ''u2'']
           (new_journal ''d'' no_files))"
proof -
  let ?S = "snd (appendMessages (new_journal ''d'' no_files) ''s'' [hi, bye] ''u1'')"
  have L: "cleanContext (fst (load ?S ''s'')) = [hi, bye]"
    by (simp add: appendMessages_def load_def save_def save_ops_def new_journal_def no_files_def
                  read_journal_def readFile_def Let_def msg_key_def hi_def bye_def
                  fresh_journal_def)
  have B: "batches_distinct [AppendMessages ''s'' [hi, bye] ''u1'', AppendMessages ''s'' [hi] ''u2'']"
    by (simp add: hi_def bye_def)
  from cleanContext_dedup [where S = ?S and k = "''s''" and ms = "[hi]" and u = "''u2''"
         and S0 = "new_journal ''d'' no_files"
         and cs = "[AppendMessages ''s'' [hi, bye] ''u1'', AppendMessages ''s'' [hi] ''u2'']"]
       L B all_journals_new [of no_repeats "''d''"]
  show ?thesis by simp
qed

text \<open>
  Claim C2 as stated fails: one batch that holds the message \<open>hi\<close> twice puts it into the
  \<open>cleanContext\<close> of a new journal twice.
\<close>

theorem cleanContext_repeat_counterexample:
  "cleanContext (journal (fst (appendMessages (new_journal ''d'' no_files) ''s'' [hi, hi] ''u1'')))
     = [hi, hi]"
  by (simp add: appendMessages_def load_def new_journal_def no_files_def
                read_journal_def readFile_def Let_def msg_key_def hi_def fresh_journal_def)

subsection \<open>The processed index\<close>

text \<open>
  Claim C3, as the code has it. \<open>commitDecisions(k, logs, n)\<close> sets the session's
  \<open>processedIndex\<close> to \<open>n\<close>, whatever \<open>n\<close> is, and leaves \<open>cleanContext\<close> alone; so the
  index equals the length of \<open>cleanContext\<close> right after the call when the caller passes
  that length. If every stored journal has \<open>0 \<le> processedIndex \<le> length cleanContext\<close>
  and every \<open>commitDecisions\<close> of a sequence of calls is given an index in that range,
  every stored journal has the property after the sequence.
\<close>

theorem processedIndex_commit:
  "processedIndex (fst (load (commitDecisions S k ls n u) k)) = n
   \<and> cleanContext (fst (load (commitDecisions S k ls n u) k)) = cleanContext (fst (load S k))
   \<and> (n = int (length (cleanContext (fst (load S k)))) \<longrightarrow>
        processedIndex (fst (load (commitDecisions S k ls n u) k))
          = int (length (cleanContext (fst (load (commitDecisions S k ls n u) k)))))
   \<and> (all_journals index_ok S0 \<and> commits_in_range cs S0 \<longrightarrow>
        all_journals index_ok (run_calls cs S0))"
  using index_ok_run [of S0 cs] by (simp add: commitDecisions_load)

theorem processedIndex_commit_witness:
  "processedIndex (fst (load (commitDecisions
       (snd (appendMessages (new_journal ''d'' no_files) ''s'' [hi, bye] ''u1''))
       ''s'' [] 2 ''u2'') ''s'')) = 2
   \<and> cleanContext (fst (load (commitDecisions
       (snd (appendMessages (new_journal ''d'' no_files) ''s'' [hi, bye] ''u1''))
       ''s'' [] 2 ''u2'') ''s'')) = [hi, bye]
   \<and> all_journals index_ok
        (run_calls [AppendMessages ''s'' [hi, bye] ''u1'', CommitDecisions ''s'' [] 2 ''u2'']
           (new_journal ''d'' no_files))"
proof -
  let ?S = "snd (appendMessages (new_journal ''d'' no_files) ''s'' [hi, bye] ''u1'')"
  have L: "cleanContext (fst (load ?S ''s'')) = [hi, bye]"
    by (simp add: appendMessages_def load_def save_def save_ops_def new_journal_def no_files_def
                  read_journal_def readFile_def Let_def msg_key_def hi_def bye_def
                  fresh_journal_def)
  have R: "commits_in_range
             [AppendMessages ''s'' [hi, bye] ''u1'', CommitDecisions ''s'' [] 2 ''u2'']
             (new_journal ''d'' no_files)"
    using L by simp
  from processedIndex_commit [where S = ?S and k = "''s''" and ls = "[]" and n = 2
         and u = "''u2''" and S0 = "new_journal ''d'' no_files"
         and cs = "[AppendMessages ''s'' [hi, bye] ''u1'', CommitDecisions ''s'' [] 2 ''u2'']"]
       L R all_journals_new [of index_ok "''d''"]
  show ?thesis by simp
qed

text \<open>
  Claim C3 as stated fails: \<open>commitDecisions\<close> with the index 5 on a new session leaves
  \<open>processedIndex = 5\<close> over an empty \<open>cleanContext\<close>.
\<close>

theorem processedIndex_counterexample:
  "\<not> index_ok (fst (load (commitDecisions (new_journal ''d'' no_files) ''s'' [] 5 ''u1'') ''s''))"
proof -
  have "fst (load (new_journal ''d'' no_files) ''s'') = fresh_journal"
    by (simp add: load_def new_journal_def no_files_def read_journal_def readFile_def Let_def)
  then show ?thesis
    by (simp add: commitDecisions_load index_ok_def fresh_journal_def)
qed

subsection \<open>A journal file that cannot be read\<close>

text \<open>
  Claim C8. In any state the journal object reaches from its construction by calls of
  its two operations, if the file of a session key is missing or does not parse, then
  loading the key gives the empty journal (index 0, no messages, no logs), and both
  operations return their results from it: \<open>appendMessages\<close> gives the batch as journal
  content and as delta, \<open>commitDecisions\<close> stores the logs and the index and writes the
  file. No operation has an error result; \<open>load\<close> turns the error of the read or the
  parse into the empty journal.
\<close>

theorem unreadable_journal_is_fresh:
  assumes "S = run_calls cs (new_journal dir fs)"
    and "read_journal (files S) (journalPath dir k) = Inl e"
  shows "fst (load S k) = fresh_journal
    \<and> fst (appendMessages S k ms u) = \<lparr>journal = fresh_journal\<lparr>cleanContext := ms\<rparr>, delta = ms\<rparr>
    \<and> fst (load (commitDecisions S k ls n u) k)
        = \<lparr>processedIndex = n, cleanContext = [], memoryLogs = ls\<rparr>
    \<and> files (commitDecisions S k ls n u) (journalPath dir k)
        = Some (Json \<lparr>processedIndex = n, cleanContext = [], memoryLogs = ls\<rparr>)"
proof -
  have "cache_backed (new_journal dir fs)"
    by (simp add: cache_backed_def new_journal_def)
  then have B: "cache_backed S"
    unfolding assms(1) by (rule cache_backed_run_calls)
  have D: "sessionsDir S = dir"
    by (simp add: assms(1) run_calls_dir new_journal_def)
  obtain jd S1 where L: "load S k = (jd, S1)" by (cases "load S k")
  from load_unreadable [OF B, where k = k and e = e] assms(2) D L
  have F: "jd = fresh_journal" by simp
  from load_dir [of S k] load_files [of S k] L D
  have S1: "sessionsDir S1 = dir" "files S1 = files S" by simp_all
  have 1: "fst (load S k) = fresh_journal" using L F by simp
  have "journal (fst (appendMessages S k ms u)) = fresh_journal\<lparr>cleanContext := ms\<rparr>"
    and "delta (fst (appendMessages S k ms u)) = ms"
    by (simp_all add: appendMessages_eq(1,2) [OF L] F fresh_journal_def slice_def)
  then have 2: "fst (appendMessages S k ms u)
      = \<lparr>journal = fresh_journal\<lparr>cleanContext := ms\<rparr>, delta = ms\<rparr>"
    by (cases "fst (appendMessages S k ms u)") simp
  have 3: "fst (load (commitDecisions S k ls n u) k)
        = \<lparr>processedIndex = n, cleanContext = [], memoryLogs = ls\<rparr>"
    by (simp add: commitDecisions_load 1 fresh_journal_def)
  have 4: "files (commitDecisions S k ls n u) (journalPath dir k)
        = Some (Json \<lparr>processedIndex = n, cleanContext = [], memoryLogs = ls\<rparr>)"
    using tmpPath_neq [of "journalPath dir k" u]
    by (simp add: commitDecisions_eq [OF L] save_files S1 F fresh_journal_def)
  from 1 2 3 4 show ?thesis by simp
qed

text \<open>
  An instance with the key already cached: the first call loads the unparsable file,
  caches the empty journal and writes nothing.
\<close>

theorem unreadable_journal_is_fresh_witness:
  "fst (load (run_calls [AppendMessages ''s'' [] ''u0'']
               (new_journal ''d'' [''d/s.json'' \<mapsto> Garbage ''{''])) ''s'') = fresh_journal
   \<and> fst (appendMessages (run_calls [AppendMessages ''s'' [] ''u0'']
               (new_journal ''d'' [''d/s.json'' \<mapsto> Garbage ''{''])) ''s'' [hi] ''u1'')
       = \<lparr>journal = fresh_journal\<lparr>cleanContext := [hi]\<rparr>, delta = [hi]\<rparr>
   \<and> fst (load (commitDecisions (run_calls [AppendMessages ''s'' [] ''u0'']
               (new_journal ''d'' [''d/s.json'' \<mapsto> Garbage ''{''])) ''s'' [] 0 ''u1'') ''s'')
       = \<lparr>processedIndex = 0, cleanContext = [], memoryLogs = []\<rparr>"
proof -
  let ?N = "new_journal ''d'' [''d/s.json'' \<mapsto> Garbage ''{'']"
  let ?S = "run_calls [AppendMessages ''s'' [] ''u0''] ?N"
  obtain jd S1 where L: "load ?N ''s'' = (jd, S1)" by (cases "load ?N ''s''")
  have "?S = S1"
    using appendMessages_eq(3) [OF L, of "[]" "''u0''"] by simp
  moreover have "files S1 = files ?N"
    using load_files [of ?N "''s''"] L by simp
  ultimately have "files ?S = [''d/s.json'' \<mapsto> Garbage ''{'']"
    by (simp add: new_journal_def)
  then have R: "read_journal (files ?S) (journalPath ''d'' ''s'') = Inl SyntaxError"
    by (simp add: read_journal_def readFile_def journalPath_def sanitize_def safe_char_def)
  from unreadable_journal_is_fresh [OF refl R, where ms = "[hi]" and u = "''u1''"
         and ls = "[]" and n = 0]
  show ?thesis by simp
qed

subsection \<open>Saving through a temporary file\<close>

text \<open>
  Claim C9. \<open>save\<close> makes its calls in this order: create the directory, write the whole
  journal to a temporary path, rename the temporary path onto the session's file. The
  temporary path differs from the session's file. In every state in which the sequence
  can be cut off, the write half done included, the session's file holds what it held
  before or the complete new journal; after the write and before the rename it holds
  what it held before; after \<open>save\<close> it holds the new journal.
\<close>

theorem save_is_write_then_rename:
  "save_ops dir k d u =
     [Mkdir dir, WriteFile (tmpPathOf (journalPath dir k) u) d,
      Rename (tmpPathOf (journalPath dir k) u) (journalPath dir k)]
   \<and> tmpPathOf (journalPath dir k) u \<noteq> journalPath dir k
   \<and> (\<forall>fs' \<in> set (crash_states (save_ops dir k d u) fs).
         fs' (journalPath dir k) = fs (journalPath dir k)
         \<or> fs' (journalPath dir k) = Some (Json d))
   \<and> run_ops (take 2 (save_ops dir k d u)) fs (journalPath dir k) = fs (journalPath dir k)
   \<and> files (save S k d u) (journalPath (sessionsDir S) k) = Some (Json d)"
proof -
  have 1: "save_ops dir k d u =
     [Mkdir dir, WriteFile (tmpPathOf (journalPath dir k) u) d,
      Rename (tmpPathOf (journalPath dir k) u) (journalPath dir k)]"
    by (simp add: save_ops_def Let_def)
  have 2: "tmpPathOf (journalPath dir k) u \<noteq> journalPath dir k"
    by (rule tmpPath_neq)
  have 3: "\<forall>fs' \<in> set (crash_states (save_ops dir k d u) fs).
         fs' (journalPath dir k) = fs (journalPath dir k)
         \<or> fs' (journalPath dir k) = Some (Json d)"
    using crash_states_save by blast
  have 4: "run_ops (take 2 (save_ops dir k d u)) fs (journalPath dir k) = fs (journalPath dir k)"
    using 2 by (simp add: 1)
  have 5: "files (save S k d u) (journalPath (sessionsDir S) k) = Some (Json d)"
    using tmpPath_neq [of "journalPath (sessionsDir S) k" u] by (simp add: save_files)
  from 1 2 3 4 5 show ?thesis by blast
qed

theorem save_is_write_then_rename_witness:
  "map (\<lambda>fs'. fs' (journalPath ''d'' ''s''))
     (crash_states (save_ops ''d'' ''s'' fresh_journal ''0123abcd'')
        [journalPath ''d'' ''s'' \<mapsto> Garbage ''old''])
   = [Some (Garbage ''old''), Some (Garbage ''old''), Some (Garbage ''old''),
      Some (Garbage ''old''), Some (Json fresh_journal)]"
  using save_is_write_then_rename [where dir = "''d''" and k = "''s''" and d = fresh_journal
          and u = "''0123abcd''" and fs = "[journalPath ''d'' ''s'' \<mapsto> Garbage ''old'']"
          and S = "new_journal ''d'' no_files"]
  by (simp add: tmpPath_neq tmpPath_neq [THEN not_sym])

subsection \<open>Session keys and file names\<close>

text \<open>
  Claim C10. The keys \<open>a.b\<close> and \<open>a:b\<close> differ and have the same journal file. The cache
  keeps them apart: after \<open>appendMessages\<close> for \<open>a.b\<close> with the message \<open>hi\<close> and then for
  \<open>a:b\<close> with the message \<open>bye\<close>, the second session has read \<open>hi\<close> from the first one's
  file, the file holds both messages, and the cache still holds only \<open>hi\<close> for \<open>a.b\<close>.
\<close>

theorem journalPath_not_injective:
  "''a.b'' \<noteq> ''a:b''
   \<and> journalPath dir ''a.b'' = journalPath dir ''a:b''
   \<and> cleanContext (journal (fst (appendMessages
         (snd (appendMessages (new_journal dir no_files) ''a.b'' [hi] u1)) ''a:b'' [bye] u2)))
       = [hi, bye]
   \<and> map_option cleanContext (cache (snd (appendMessages
         (snd (appendMessages (new_journal dir no_files) ''a.b'' [hi] u1)) ''a:b'' [bye] u2))
         ''a.b'') = Some [hi]
   \<and> read_journal (files (snd (appendMessages
         (snd (appendMessages (new_journal dir no_files) ''a.b'' [hi] u1)) ''a:b'' [bye] u2)))
         (journalPath dir ''a.b'')
       = Inr \<lparr>processedIndex = 0, cleanContext = [hi, bye], memoryLogs = []\<rparr>"
proof -
  have P: "journalPath dir ''a.b'' = journalPath dir ''a:b''"
    by (simp add: journalPath_def sanitize_def safe_char_def)
  let ?p = "journalPath dir ''a:b''"
  let ?S0 = "new_journal dir no_files"
  have L0: "load ?S0 ''a.b'' = (fresh_journal, ?S0\<lparr>cache := [''a.b'' \<mapsto> fresh_journal]\<rparr>)"
    by (simp add: load_def new_journal_def no_files_def read_journal_def readFile_def Let_def)
  let ?j1 = "\<lparr>processedIndex = 0, cleanContext = [hi], memoryLogs = []\<rparr>"
  let ?S1 = "snd (appendMessages ?S0 ''a.b'' [hi] u1)"
  have S1: "?S1 = save (?S0\<lparr>cache := [''a.b'' \<mapsto> fresh_journal]\<rparr>) ''a.b'' ?j1 u1"
    by (simp add: appendMessages_eq(3) [OF L0] fresh_journal_def)
  have c1: "cache ?S1 = [''a.b'' \<mapsto> ?j1]"
    by (subst S1) (simp add: save_cache_eq)
  have d0: "sessionsDir ?S0 = dir" "cache ?S0 = Map.empty" "files ?S0 = Map.empty"
    by (simp_all add: new_journal_def no_files_def)
  have f1: "files ?S1 ?p = Some (Json ?j1)"
    using tmpPath_neq [of ?p u1]
    by (subst S1) (simp add: save_files d0 P)
  have d1: "sessionsDir ?S1 = dir"
    by (subst S1) (simp add: save_dir d0)
  have L1: "load ?S1 ''a:b'' = (?j1, ?S1\<lparr>cache := (cache ?S1)(''a:b'' \<mapsto> ?j1)\<rparr>)"
    by (simp add: load_def c1 d1 f1 read_journal_def readFile_def Let_def)
  let ?j2 = "\<lparr>processedIndex = 0, cleanContext = [hi, bye], memoryLogs = []\<rparr>"
  let ?S2 = "snd (appendMessages ?S1 ''a:b'' [bye] u2)"
  have nb: "bye \<noteq> hi"
    by (simp add: hi_def bye_def)
  have S2: "?S2 = save (?S1\<lparr>cache := (cache ?S1)(''a:b'' \<mapsto> ?j1)\<rparr>) ''a:b'' ?j2 u2"
    by (simp add: appendMessages_eq(3) [OF L1] nb)
  have 3: "cleanContext (journal (fst (appendMessages ?S1 ''a:b'' [bye] u2))) = [hi, bye]"
    by (simp add: appendMessages_eq(1) [OF L1] nb)
  have 4: "map_option cleanContext (cache ?S2 ''a.b'') = Some [hi]"
    by (subst S2) (simp add: save_cache_eq c1)
  have 5: "read_journal (files ?S2) (journalPath dir ''a.b'') = Inr ?j2"
    using tmpPath_neq [of ?p u2]
    by (subst S2) (simp add: save_files d1 P read_journal_def readFile_def)
  from P 3 4 5 show ?thesis by simp
qed

section \<open>Properties of the decision maker\<close>

subsection \<open>What a tool call adds to the trace\<close>

lemma extends_by_refl: "extends_by P tr tr"
  by (simp add: extends_by_def)

lemma exec_store_trace: "extends_by is_exec_event (trace w) (trace (snd (exec_store M args di w)))"
  by (auto simp: exec_store_def call_store_def emit_def extends_by_def
           split: sum.split prod.split)

lemma exec_forget_trace: "extends_by is_exec_event (trace w) (trace (snd (exec_forget M args di w)))"
  by (auto simp: exec_forget_def call_forget_def emit_def extends_by_def
           split: sum.split prod.split)

lemma exec_update_trace: "extends_by is_exec_event (trace w) (trace (snd (exec_update M args di w)))"
  by (auto simp: exec_update_def call_update_def emit_def extends_by_def
           split: sum.split prod.split)

lemma executeTool_trace: "extends_by is_exec_event (trace w) (trace (snd (executeTool M name args di w)))"
  by (simp add: executeTool_def exec_store_trace exec_forget_trace exec_update_trace extends_by_refl)

lemma exec_store_log:
  "case fst (exec_store M args di w) of Inl e \<Rightarrow> True | Inr r \<Rightarrow> (\<exists>l. r = Some l \<and> deltaIndex l = di)"
  by (simp add: exec_store_def split: sum.split prod.split)

lemma exec_forget_log:
  "case fst (exec_forget M args di w) of Inl e \<Rightarrow> True | Inr r \<Rightarrow> (\<exists>l. r = Some l \<and> deltaIndex l = di)"
  by (simp add: exec_forget_def split: sum.split prod.split)

lemma exec_update_log:
  "case fst (exec_update M args di w) of Inl e \<Rightarrow> True | Inr r \<Rightarrow> (\<exists>l. r = Some l \<and> deltaIndex l = di)"
  by (simp add: exec_update_def split: sum.split prod.split)

lemma executeTool_log:
  "case fst (executeTool M name args di w) of Inl e \<Rightarrow> True | Inr r \<Rightarrow> (\<exists>l. r = Some l \<and> deltaIndex l = di)"
  by (simp add: executeTool_def exec_store_log exec_forget_log exec_update_log)


lemma extends_by_exec_complete:
  "extends_by is_exec_event tr tr' \<Longrightarrow> count_list tr' Complete = count_list tr Complete"
proof -
  have "list_all is_exec_event evs \<Longrightarrow> count_list evs Complete = 0" for evs
    by (induction evs) auto
  then show "extends_by is_exec_event tr tr' \<Longrightarrow> ?thesis"
    by (auto simp: extends_by_def)
qed

lemma extends_by_exec_success:
  "extends_by is_exec_event tr tr' \<Longrightarrow> success_results tr' = success_results tr"
proof -
  have "list_all is_exec_event evs \<Longrightarrow> filter is_success evs = []" for evs
  proof (induction evs)
    case Nil
    then show ?case by simp
  next
    case (Cons e evs)
    then show ?case by (cases e) auto
  qed
  then show "extends_by is_exec_event tr tr' \<Longrightarrow> ?thesis"
    by (auto simp: extends_by_def success_results_def)
qed

lemma handleToolCall_fail:
  "executeTool M (tc_name tc) (tc_args tc) di w = (Inl err, w1) \<Longrightarrow>
     handleToolCall M tc di now w =
       (None, call_pushToolResult M (tc_id tc) (''Error: '' @ err) True
                (emit (LoggerWarn (''memory-lancedb: tool '' @ tc_name tc @ '' failed: Error: '' @ err)) w1))"
  by (simp add: handleToolCall_def Let_def)

lemma handleToolCall_ok:
  "executeTool M (tc_name tc) (tc_args tc) di w = (Inr (Some l), w1) \<Longrightarrow>
     handleToolCall M tc di now w =
       (Some (l\<lparr>timestamp := now\<rparr>),
        call_pushToolResult M (tc_id tc)
          (''Success: '' @ action_str (action l) @ '' memory '' @ memoryId l) False w1)"
  by (simp add: handleToolCall_def Let_def)

lemma handleToolCall_cases:
  obtains (fail) err w0 where "executeTool M (tc_name tc) (tc_args tc) di w = (Inl err, w0)"
  | (ok) l w0 where "executeTool M (tc_name tc) (tc_args tc) di w = (Inr (Some l), w0)"
      "deltaIndex l = di"
proof -
  obtain x w0 where E: "executeTool M (tc_name tc) (tc_args tc) di w = (x, w0)"
    by (cases "executeTool M (tc_name tc) (tc_args tc) di w")
  show ?thesis
  proof (cases x)
    case (Inl e)
    with E fail show ?thesis by simp
  next
    case (Inr r)
    with E executeTool_log [where M = M and name = "tc_name tc" and args = "tc_args tc" and di = di and w = w]
    obtain l where "r = Some l" "deltaIndex l = di" by auto
    with E Inr ok show ?thesis by simp
  qed
qed

lemma trace_push: "trace (call_pushToolResult M i c b w) = trace w @ [PushToolResult i c b]"
  by (simp add: call_pushToolResult_def emit_def)

lemma trace_emit: "trace (emit e w) = trace w @ [e]"
  by (simp add: emit_def)

lemma executeTool_counts:
  assumes "executeTool M name args di w = (x, w0)"
  shows "count_list (trace w0) Complete = count_list (trace w) Complete"
    and "success_results (trace w0) = success_results (trace w)"
proof -
  have "extends_by is_exec_event (trace w) (trace w0)"
    using executeTool_trace [where M = M and name = name and args = args and di = di and w = w] assms by simp
  then show "count_list (trace w0) Complete = count_list (trace w) Complete"
    and "success_results (trace w0) = success_results (trace w)"
    by (simp_all add: extends_by_exec_complete extends_by_exec_success)
qed

lemma handleToolCall_result:
  assumes "handleToolCall M tc di now w = (r, w1)"
  shows "count_list (trace w1) Complete = count_list (trace w) Complete"
    and "success_results (trace w1) = success_results (trace w) + (if r = None then 0 else 1)"
    and "\<forall>l. r = Some l \<longrightarrow> deltaIndex l = di \<and> timestamp l = now"
proof -
  have "count_list (trace w1) Complete = count_list (trace w) Complete
      \<and> success_results (trace w1) = success_results (trace w) + (if r = None then 0 else 1)
      \<and> (\<forall>l. r = Some l \<longrightarrow> deltaIndex l = di \<and> timestamp l = now)"
  proof (cases rule: handleToolCall_cases [where M = M and tc = tc and di = di and w = w])
    case (fail err w0)
    from handleToolCall_fail [OF fail, where now = now] assms executeTool_counts [OF fail]
    show ?thesis by (auto simp: trace_push trace_emit success_results_def)
  next
    case (ok l w0)
    from handleToolCall_ok [OF ok(1), where now = now] assms executeTool_counts [OF ok(1)] ok(2)
    show ?thesis by (auto simp: trace_push trace_emit success_results_def)
  qed
  then show "count_list (trace w1) Complete = count_list (trace w) Complete"
    and "success_results (trace w1) = success_results (trace w) + (if r = None then 0 else 1)"
    and "\<forall>l. r = Some l \<longrightarrow> deltaIndex l = di \<and> timestamp l = now"
    by simp_all
qed

lemma handle_calls_result:
  "handle_calls M di now tcs ls w = (ls', w1) \<Longrightarrow>
     count_list (trace w1) Complete = count_list (trace w) Complete
     \<and> length ls' + success_results (trace w) = length ls + success_results (trace w1)
     \<and> ((\<forall>l\<in>set ls. deltaIndex l = di) \<longrightarrow> (\<forall>l\<in>set ls'. deltaIndex l = di))"
proof (induction tcs arbitrary: ls w)
  case Nil
  then show ?case by simp
next
  case (Cons tc tcs)
  obtain r w0 where H: "handleToolCall M tc di now w = (r, w0)"
    by (cases "handleToolCall M tc di now w")
  note R = handleToolCall_result [OF H]
  show ?case
  proof (cases r)
    case None
    with Cons.prems H have "handle_calls M di now tcs ls w0 = (ls', w1)" by simp
    from Cons.IH [OF this] R None show ?thesis by simp
  next
    case (Some l)
    with Cons.prems H have "handle_calls M di now tcs (ls @ [l]) w0 = (ls', w1)" by simp
    from Cons.IH [OF this] R Some show ?thesis by simp
  qed
qed


lemma evaluate_loop_stop:
  "\<not> iter < MAX_TOOL_ITERATIONS \<Longrightarrow> evaluate_loop M jd now iter ls w = (Inr ls, w)"
  by (subst evaluate_loop.simps) simp

lemma evaluate_loop_throw:
  "iter < MAX_TOOL_ITERATIONS \<Longrightarrow> call_complete M w = (Inl e, w1)
     \<Longrightarrow> evaluate_loop M jd now iter ls w = (Inl e, w1)"
  by (subst evaluate_loop.simps) simp

lemma evaluate_loop_last:
  "iter < MAX_TOOL_ITERATIONS \<Longrightarrow> call_complete M w = (Inr resp, w1)
     \<Longrightarrow> toolCalls resp = [] \<or> resp_done resp
     \<Longrightarrow> handle_calls M (int (length (cleanContext jd))) now (toolCalls resp) ls w1 = (ls', w2)
     \<Longrightarrow> evaluate_loop M jd now iter ls w = (Inr ls', w2)"
  by (subst evaluate_loop.simps) auto

lemma evaluate_loop_next:
  "iter < MAX_TOOL_ITERATIONS \<Longrightarrow> call_complete M w = (Inr resp, w1)
     \<Longrightarrow> toolCalls resp \<noteq> [] \<Longrightarrow> \<not> resp_done resp
     \<Longrightarrow> handle_calls M (int (length (cleanContext jd))) now (toolCalls resp) ls w1 = (ls', w2)
     \<Longrightarrow> evaluate_loop M jd now iter ls w = evaluate_loop M jd now (Suc iter) ls' w2"
  by (subst evaluate_loop.simps) simp

lemma call_complete_result:
  assumes "call_complete M w = (r, w1)"
  shows "count_list (trace w1) Complete = Suc (count_list (trace w) Complete)"
    and "success_results (trace w1) = success_results (trace w)"
    and "\<exists>a'. complete (chat M) (adapter w) = (r, a')"
  using assms
  by (auto simp: call_complete_def emit_def success_results_def split: prod.splits)

text \<open>The loop's invariant, for a remaining number of rounds.\<close>

lemma evaluate_loop_result:
  "n = MAX_TOOL_ITERATIONS - iter \<Longrightarrow> evaluate_loop M jd now iter ls w = (r, w') \<Longrightarrow>
     count_list (trace w') Complete \<le> count_list (trace w) Complete + n
     \<and> (case r of
          Inl e \<Rightarrow> (\<exists>a a'. complete (chat M) a = (Inl e, a'))
        | Inr ls' \<Rightarrow>
            length ls' + success_results (trace w) = length ls + success_results (trace w')
            \<and> ((\<forall>l\<in>set ls. deltaIndex l = int (length (cleanContext jd)))
                 \<longrightarrow> (\<forall>l\<in>set ls'. deltaIndex l = int (length (cleanContext jd)))))"
proof (induction n arbitrary: iter ls w)
  case 0
  then have "\<not> iter < MAX_TOOL_ITERATIONS" by simp
  from evaluate_loop_stop [OF this, of M jd now ls w] "0.prems"(2) show ?case by auto
next
  case (Suc n)
  then have lt: "iter < MAX_TOOL_ITERATIONS" and n: "n = MAX_TOOL_ITERATIONS - Suc iter" by simp_all
  obtain c w1 where C: "call_complete M w = (c, w1)" by (cases "call_complete M w")
  note cr = call_complete_result [OF C]
  show ?case
  proof (cases c)
    case (Inl e)
    from evaluate_loop_throw [OF lt C [unfolded Inl]] Suc.prems(2)
    have "r = Inl e" "w' = w1" by simp_all
    with cr Inl show ?thesis by auto
  next
    case (Inr resp)
    obtain ls1 w2 where H: "handle_calls M (int (length (cleanContext jd))) now
                       (toolCalls resp) ls w1 = (ls1, w2)"
      by (cases "handle_calls M (int (length (cleanContext jd))) now (toolCalls resp) ls w1")
    note hr = handle_calls_result [OF H]
    show ?thesis
    proof (cases "toolCalls resp = [] \<or> resp_done resp")
      case True
      from evaluate_loop_last [OF lt C [unfolded Inr] True H] Suc.prems(2)
      have "r = Inr ls1" "w' = w2" by simp_all
      with hr cr show ?thesis by simp
    next
      case False
      then have "toolCalls resp \<noteq> []" "\<not> resp_done resp" by simp_all
      from evaluate_loop_next [OF lt C [unfolded Inr] this H] Suc.prems(2)
      have R: "evaluate_loop M jd now (Suc iter) ls1 w2 = (r, w')" by simp
      note ih = Suc.IH [OF n R]
      show ?thesis
      proof (cases r)
        case (Inl e)
        with ih hr cr show ?thesis by simp
      next
        case (Inr lsr)
        with ih hr cr show ?thesis by simp
      qed
    qed
  qed
qed


subsection \<open>The whole evaluation\<close>

lemma evaluate_result:
  "complete_calls (snd (snd (evaluate M now jd dl d))) \<le> MAX_TOOL_ITERATIONS
   \<and> (case fst (evaluate M now jd dl d) of
        Inl e \<Rightarrow> (\<exists>a a'. complete (chat M) a = (Inl e, a'))
      | Inr R \<Rightarrow>
          length (logs R) = success_results (snd (snd (evaluate M now jd dl d)))
          \<and> (\<forall>l\<in>set (logs R). deltaIndex l = int (length (cleanContext jd))))"
proof (cases "dl = []")
  case True
  then show ?thesis
    by (simp add: evaluate_def complete_calls_def success_results_def)
next
  case False
  let ?w0 = "\<lparr>adapter = newAdapter (chat M) (buildPrompt jd dl), db = d, trace = []\<rparr>"
  obtain r w' where E: "evaluate_loop M jd now 0 [] ?w0 = (r, w')"
    by (cases "evaluate_loop M jd now 0 [] ?w0")
  from evaluate_loop_result [OF refl E]
  have R: "count_list (trace w') Complete \<le> MAX_TOOL_ITERATIONS"
    "case r of
       Inl e \<Rightarrow> \<exists>a a'. complete (chat M) a = (Inl e, a')
     | Inr ls' \<Rightarrow> length ls' = success_results (trace w')
          \<and> (\<forall>l\<in>set ls'. deltaIndex l = int (length (cleanContext jd)))"
    by (auto simp: success_results_def split: sum.splits)
  show ?thesis
  proof (cases r)
    case (Inl e)
    with R E False show ?thesis
      by (simp add: evaluate_def Let_def complete_calls_def)
  next
    case (Inr ls')
    with R E False show ?thesis
      by (simp add: evaluate_def Let_def complete_calls_def)
  qed
qed


subsection \<open>Arguments of a tool call\<close>

lemma unknown_tool:
  "name \<noteq> ''store_memory'' \<Longrightarrow> name \<noteq> ''forget_memory'' \<Longrightarrow> name \<noteq> ''update_memory''
     \<Longrightarrow> executeTool M name args di w = (Inl (''Unknown tool: '' @ name), w)"
  by (simp add: executeTool_def)

lemma store_without_text:
  assumes "arg_String (builtins M) args ''text'' [] = Inr []"
  shows "\<exists>e. executeTool M ''store_memory'' args di w = (Inl e, w)"
  using assms by (simp add: executeTool_def exec_store_def split: sum.split)

lemma store_without_text_message:
  assumes "arg_String (builtins M) args ''text'' [] = Inr []"
    and "arg_String (builtins M) args ''category'' ''other'' = Inr c"
    and "arg_Number (builtins M) args ''importance'' (Num (7 / 10)) = Inr i"
  shows "executeTool M ''store_memory'' args di w = (Inl ''text is required for store_memory'', w)"
  using assms by (simp add: executeTool_def exec_store_def)

lemma store_conversion_throws:
  assumes "arg_String (builtins M) args ''text'' [] = Inr t"
    and "arg_String (builtins M) args ''category'' ''other'' = Inl e"
  shows "executeTool M ''store_memory'' args di w = (Inl e, w)"
  using assms by (simp add: executeTool_def exec_store_def)

lemma forget_without_id:
  assumes "arg_String (builtins M) args ''memoryId'' [] = Inr []"
  shows "executeTool M ''forget_memory'' args di w
           = (Inl ''memoryId is required for forget_memory'', w)"
  using assms by (simp add: executeTool_def exec_forget_def)

lemma update_without_id:
  assumes "arg_String (builtins M) args ''memoryId'' [] = Inr []"
  shows "\<exists>e. executeTool M ''update_memory'' args di w = (Inl e, w)"
  using assms by (simp add: executeTool_def exec_update_def split: sum.split)

lemma update_without_id_message:
  assumes "arg_String (builtins M) args ''memoryId'' [] = Inr []"
    and "arg_String (builtins M) args ''text'' [] = Inr t"
    and "arg_String (builtins M) args ''category'' ''other'' = Inr c"
    and "arg_Number (builtins M) args ''importance'' (Num (7 / 10)) = Inr i"
  shows "executeTool M ''update_memory'' args di w
           = (Inl ''memoryId is required for update_memory'', w)"
  using assms by (simp add: executeTool_def exec_update_def)

lemma update_without_text:
  assumes "arg_String (builtins M) args ''memoryId'' [] = Inr mid"
    and "arg_String (builtins M) args ''text'' [] = Inr []"
  shows "\<exists>e. executeTool M ''update_memory'' args di w = (Inl e, w)"
  using assms by (simp add: executeTool_def exec_update_def split: sum.split)

lemma update_without_text_message:
  assumes "arg_String (builtins M) args ''memoryId'' [] = Inr mid" "mid \<noteq> []"
    and "arg_String (builtins M) args ''text'' [] = Inr []"
    and "arg_String (builtins M) args ''category'' ''other'' = Inr c"
    and "arg_Number (builtins M) args ''importance'' (Num (7 / 10)) = Inr i"
  shows "executeTool M ''update_memory'' args di w
           = (Inl ''text is required for update_memory'', w)"
  using assms by (simp add: executeTool_def exec_update_def)

lemma store_throws:
  assumes "arg_String (builtins M) args ''text'' [] = Inr t" "t \<noteq> []"
    and "arg_String (builtins M) args ''category'' ''other'' = Inr c"
    and "arg_Number (builtins M) args ''importance'' (Num (7 / 10)) = Inr i"
    and "fst (mem_store (ops M) t c i (db w)) = Inl err"
  shows "fst (executeTool M ''store_memory'' args di w) = Inl err"
  using assms
  by (auto simp: executeTool_def exec_store_def call_store_def split: prod.split)

lemma forget_throws:
  assumes "arg_String (builtins M) args ''memoryId'' [] = Inr mid" "mid \<noteq> []"
    and "fst (mem_forget (ops M) mid (db w)) = Inl err"
  shows "fst (executeTool M ''forget_memory'' args di w) = Inl err"
  using assms
  by (auto simp: executeTool_def exec_forget_def call_forget_def split: prod.split)

lemma update_throws:
  assumes "arg_String (builtins M) args ''memoryId'' [] = Inr mid" "mid \<noteq> []"
    and "arg_String (builtins M) args ''text'' [] = Inr t" "t \<noteq> []"
    and "arg_String (builtins M) args ''category'' ''other'' = Inr c"
    and "arg_Number (builtins M) args ''importance'' (Num (7 / 10)) = Inr i"
    and "fst (mem_update (ops M) mid t c i (db w)) = Inl err"
  shows "fst (executeTool M ''update_memory'' args di w) = Inl err"
  using assms
  by (auto simp: executeTool_def exec_update_def call_update_def split: prod.split)

lemma handleToolCall_fail_world:
  "executeTool M (tc_name tc) (tc_args tc) di w = (Inl err, w1) \<Longrightarrow>
     handleToolCall M tc di now w =
       (None,
        w1\<lparr>adapter := pushToolResult (chat M) (tc_id tc) (''Error: '' @ err) True (adapter w1),
           trace := trace w1
                    @ [LoggerWarn (''memory-lancedb: tool '' @ tc_name tc
                                     @ '' failed: Error: '' @ err),
                       PushToolResult (tc_id tc) (''Error: '' @ err) True]\<rparr>)"
  by (simp add: handleToolCall_def Let_def call_pushToolResult_def emit_def)

subsection \<open>A failing tool call\<close>

text \<open>
  Claim C4. Whenever \<open>executeTool\<close> fails for a tool call, \<open>handleToolCall\<close> gives no log
  entry, and what it leaves behind is exactly this: the adapter has been handed, by its
  \<open>pushToolResult\<close>, the call's id, \<open>Error: \<close> followed by the failure's message, and
  \<open>isError = true\<close>; the trace has the warning and that push as its last two calls; the
  memory store is as \<open>executeTool\<close> left it. The loop over the round's tool calls then
  goes on with the next call. \<open>executeTool\<close> fails, before any memory operation is
  called, for a name that is none of the three tools, for \<open>store_memory\<close> and
  \<open>update_memory\<close> whose \<open>text\<close> is missing or empty, and for \<open>forget_memory\<close> and
  \<open>update_memory\<close> whose \<open>memoryId\<close> is missing or empty; the message is the one of that
  check unless converting another argument has thrown first, and then it is the message
  of that conversion. It fails with the message of the memory operation when that
  throws. \<open>evaluate\<close> throws only what a call of \<open>complete\<close> throws.
\<close>

theorem tool_failure_is_fed_back:
  "(executeTool M (tc_name tc) (tc_args tc) di w = (Inl err, w1) \<longrightarrow>
      handleToolCall M tc di now w =
        (None,
         w1\<lparr>adapter := pushToolResult (chat M) (tc_id tc) (''Error: '' @ err) True (adapter w1),
            trace := trace w1
                     @ [LoggerWarn (''memory-lancedb: tool '' @ tc_name tc
                                      @ '' failed: Error: '' @ err),
                        PushToolResult (tc_id tc) (''Error: '' @ err) True]\<rparr>)
      \<and> handle_calls M di now (tc # tcs) ls w =
          handle_calls M di now tcs ls
            (w1\<lparr>adapter := pushToolResult (chat M) (tc_id tc) (''Error: '' @ err) True (adapter w1),
                trace := trace w1
                         @ [LoggerWarn (''memory-lancedb: tool '' @ tc_name tc
                                          @ '' failed: Error: '' @ err),
                            PushToolResult (tc_id tc) (''Error: '' @ err) True]\<rparr>))
   \<and> (name \<noteq> ''store_memory'' \<and> name \<noteq> ''forget_memory'' \<and> name \<noteq> ''update_memory'' \<longrightarrow>
        executeTool M name args di w = (Inl (''Unknown tool: '' @ name), w))
   \<and> (arg_String (builtins M) args ''text'' [] = Inr [] \<longrightarrow>
        (\<exists>e. executeTool M ''store_memory'' args di w = (Inl e, w)))
   \<and> (arg_String (builtins M) args ''text'' [] = Inr []
        \<and> arg_String (builtins M) args ''category'' ''other'' = Inr c
        \<and> arg_Number (builtins M) args ''importance'' (Num (7 / 10)) = Inr i \<longrightarrow>
        executeTool M ''store_memory'' args di w
          = (Inl ''text is required for store_memory'', w))
   \<and> (arg_String (builtins M) args ''text'' [] = Inr t
        \<and> arg_String (builtins M) args ''category'' ''other'' = Inl err \<longrightarrow>
        executeTool M ''store_memory'' args di w = (Inl err, w))
   \<and> (arg_String (builtins M) args ''memoryId'' [] = Inr [] \<longrightarrow>
        executeTool M ''forget_memory'' args di w
          = (Inl ''memoryId is required for forget_memory'', w)
        \<and> (\<exists>e. executeTool M ''update_memory'' args di w = (Inl e, w)))
   \<and> (arg_String (builtins M) args ''memoryId'' [] = Inr []
        \<and> arg_String (builtins M) args ''text'' [] = Inr t
        \<and> arg_String (builtins M) args ''category'' ''other'' = Inr c
        \<and> arg_Number (builtins M) args ''importance'' (Num (7 / 10)) = Inr i \<longrightarrow>
        executeTool M ''update_memory'' args di w
          = (Inl ''memoryId is required for update_memory'', w))
   \<and> (arg_String (builtins M) args ''memoryId'' [] = Inr mid
        \<and> arg_String (builtins M) args ''text'' [] = Inr [] \<longrightarrow>
        (\<exists>e. executeTool M ''update_memory'' args di w = (Inl e, w)))
   \<and> (arg_String (builtins M) args ''memoryId'' [] = Inr mid \<and> mid \<noteq> []
        \<and> arg_String (builtins M) args ''text'' [] = Inr []
        \<and> arg_String (builtins M) args ''category'' ''other'' = Inr c
        \<and> arg_Number (builtins M) args ''importance'' (Num (7 / 10)) = Inr i \<longrightarrow>
        executeTool M ''update_memory'' args di w
          = (Inl ''text is required for update_memory'', w))
   \<and> (arg_String (builtins M) args ''text'' [] = Inr t \<and> t \<noteq> []
        \<and> arg_String (builtins M) args ''category'' ''other'' = Inr c
        \<and> arg_Number (builtins M) args ''importance'' (Num (7 / 10)) = Inr i
        \<and> fst (mem_store (ops M) t c i (db w)) = Inl err \<longrightarrow>
        fst (executeTool M ''store_memory'' args di w) = Inl err)
   \<and> (arg_String (builtins M) args ''memoryId'' [] = Inr mid \<and> mid \<noteq> []
        \<and> fst (mem_forget (ops M) mid (db w)) = Inl err \<longrightarrow>
        fst (executeTool M ''forget_memory'' args di w) = Inl err)
   \<and> (arg_String (builtins M) args ''memoryId'' [] = Inr mid \<and> mid \<noteq> []
        \<and> arg_String (builtins M) args ''text'' [] = Inr t \<and> t \<noteq> []
        \<and> arg_String (builtins M) args ''category'' ''other'' = Inr c
        \<and> arg_Number (builtins M) args ''importance'' (Num (7 / 10)) = Inr i
        \<and> fst (mem_update (ops M) mid t c i (db w)) = Inl err \<longrightarrow>
        fst (executeTool M ''update_memory'' args di w) = Inl err)
   \<and> (fst (evaluate M now jd dl d) = Inl err \<longrightarrow>
        (\<exists>a a'. complete (chat M) a = (Inl err, a')))"
  (is "?C1 \<and> ?C2 \<and> ?C3 \<and> ?C4 \<and> ?C5 \<and> ?C6 \<and> ?C7 \<and> ?C8 \<and> ?C9 \<and> ?C10 \<and> ?C11 \<and> ?C12 \<and> ?C13")
proof -
  have 1: ?C1
    by (simp add: handleToolCall_fail_world)
  have 2: ?C2
    by (simp add: unknown_tool)
  have 3: ?C3
    using store_without_text [of M args di w] by blast
  have 4: ?C4
    using store_without_text_message [of M args c i di w] by blast
  have 5: ?C5
    using store_conversion_throws [of M args t err di w] by blast
  have 6: ?C6
    using forget_without_id [of M args di w] update_without_id [of M args di w] by blast
  have 7: ?C7
    using update_without_id_message [of M args t c i di w] by blast
  have 8: ?C8
    using update_without_text [of M args mid di w] by blast
  have 9: ?C9
    using update_without_text_message [of M args mid c i di w] by blast
  have 10: ?C10
    using store_throws [of M args t c i w err di] by blast
  have 11: ?C11
    using forget_throws [of M args mid w err di] by blast
  have 12: ?C12
    using update_throws [of M args mid t c i w err di] by blast
  have 13: ?C13
    using evaluate_result [of M now jd dl d] by auto
  show ?thesis
    by (intro conjI) (fact 1, fact 2, fact 3, fact 4, fact 5, fact 6, fact 7, fact 8, fact 9,
                      fact 10, fact 11, fact 12, fact 13)
qed

text \<open>
  Runs with an adapter that keeps what is pushed to it. A \<open>store_memory\<close> without
  arguments: the adapter holds the error under the call's id. A \<open>store_memory\<close> whose
  category is an object with an own \<open>toString\<close>: the conversion throws before the text
  is checked. A whole evaluation whose first round asks for the call without arguments
  and for a good one and whose second round ends the turn: the failed call is answered
  with the error, the good one is carried out and logged, the model is asked a second
  time, and the adapter holds both results in order.
\<close>

theorem tool_failure_is_fed_back_witness:
  "handleToolCall (recording_maker []) (store_call ''c1'' (JObj [])) 1 42
       \<lparr>adapter = ([], []), db = [], trace = []\<rparr>
     = (None, \<lparr>adapter = ([], [(''c1'', ''Error: text is required for store_memory'', True)]),
               db = [],
               trace = [LoggerWarn ''memory-lancedb: tool store_memory failed: Error: text is required for store_memory'',
                        PushToolResult ''c1'' ''Error: text is required for store_memory'' True]\<rparr>)
   \<and> executeTool (recording_maker []) ''store_memory''
         (JObj [(''text'', JStr ''x''), (''category'', JObj [(''toString'', JNum (Num 1))])]) 1
         \<lparr>adapter = ([], []), db = [], trace = []\<rparr>
     = (Inl ''Cannot convert object to primitive value'',
        \<lparr>adapter = ([], []), db = [], trace = []\<rparr>)
   \<and> evaluate_loop (recording_maker [])
        \<lparr>processedIndex = 0, cleanContext = [dark_mode], memoryLogs = []\<rparr> 42 0 []
        \<lparr>adapter = ([Inr \<lparr>toolCalls = [store_call ''c1'' (JObj []),
                                        store_call ''c2'' dark_mode_args],
                            resp_done = False\<rparr>], []),
         db = [], trace = []\<rparr>
     = (Inr [\<lparr>deltaIndex = 1, action = Store, memoryId = ''abc123'',
               log_text = ''I like dark mode'', timestamp = 42\<rparr>],
        \<lparr>adapter = ([], [(''c1'', ''Error: text is required for store_memory'', True),
                         (''c2'', ''Success: store memory abc123'', False)]),
         db = [''I like dark mode''],
         trace =
           [Complete,
            LoggerWarn ''memory-lancedb: tool store_memory failed: Error: text is required for store_memory'',
            PushToolResult ''c1'' ''Error: text is required for store_memory'' True,
            OpsStore ''I like dark mode'' ''preference'' (Num (8 / 10)),
            LoggerInfo (''memory-lancedb: stored abc123: '' @ [CHR 0x22] @ ''I like dark mode'' @ [CHR 0x22]),
            PushToolResult ''c2'' ''Success: store memory abc123'' False,
            Complete]\<rparr>)"
proof -
  let ?M = "recording_maker []"
  let ?w = "\<lparr>adapter = ([], []), db = [], trace = []\<rparr>
              :: ((string + AdapterResponse) list \<times> (string \<times> string \<times> bool) list, string list) world"
  have T: "arg_String (builtins ?M) (JObj []) ''text'' [] = Inr []"
    "arg_String (builtins ?M) (JObj []) ''category'' ''other'' = Inr ''other''"
    "arg_Number (builtins ?M) (JObj []) ''importance'' (Num (7 / 10)) = Inr (Num (7 / 10))"
    by (simp_all add: arg_String_def arg_Number_def)
  have E: "executeTool ?M (tc_name (store_call ''c1'' (JObj [])))
             (tc_args (store_call ''c1'' (JObj []))) 1 ?w
             = (Inl ''text is required for store_memory'', ?w)"
    using tool_failure_is_fed_back [where M = ?M and args = "JObj []" and di = 1 and w = ?w
            and c = "''other''" and i = "Num (7 / 10)"] T
    by (simp add: store_call_def)
  have 1: "handleToolCall ?M (store_call ''c1'' (JObj [])) 1 42 ?w
     = (None, \<lparr>adapter = ([], [(''c1'', ''Error: text is required for store_memory'', True)]),
               db = [],
               trace = [LoggerWarn ''memory-lancedb: tool store_memory failed: Error: text is required for store_memory'',
                        PushToolResult ''c1'' ''Error: text is required for store_memory'' True]\<rparr>)"
    using tool_failure_is_fed_back [where M = ?M and tc = "store_call ''c1'' (JObj [])"
            and di = 1 and w = ?w and ?w1.0 = ?w and now = 42
            and err = "''text is required for store_memory''"] E
    by (simp add: store_call_def recording_maker_def recording_chat_def)
  let ?args = "JObj [(''text'', JStr ''x''), (''category'', JObj [(''toString'', JNum (Num 1))])]"
  have C: "arg_String (builtins ?M) ?args ''text'' [] = Inr ''x''"
    "arg_String (builtins ?M) ?args ''category'' ''other''
       = Inl ''Cannot convert object to primitive value''"
    by (simp_all add: arg_String_def)
  have 2: "executeTool ?M ''store_memory'' ?args 1 ?w
     = (Inl ''Cannot convert object to primitive value'', ?w)"
    using tool_failure_is_fed_back [where M = ?M and args = ?args and di = 1 and w = ?w
            and t = "''x''" and err = "''Cannot convert object to primitive value''"] C
    by simp
  have 3: "evaluate_loop (recording_maker [])
        \<lparr>processedIndex = 0, cleanContext = [dark_mode], memoryLogs = []\<rparr> 42 0 []
        \<lparr>adapter = ([Inr \<lparr>toolCalls = [store_call ''c1'' (JObj []),
                                        store_call ''c2'' dark_mode_args],
                            resp_done = False\<rparr>], []),
         db = [], trace = []\<rparr>
     = (Inr [\<lparr>deltaIndex = 1, action = Store, memoryId = ''abc123'',
               log_text = ''I like dark mode'', timestamp = 42\<rparr>],
        \<lparr>adapter = ([], [(''c1'', ''Error: text is required for store_memory'', True),
                         (''c2'', ''Success: store memory abc123'', False)]),
         db = [''I like dark mode''],
         trace =
           [Complete,
            LoggerWarn ''memory-lancedb: tool store_memory failed: Error: text is required for store_memory'',
            PushToolResult ''c1'' ''Error: text is required for store_memory'' True,
            OpsStore ''I like dark mode'' ''preference'' (Num (8 / 10)),
            LoggerInfo (''memory-lancedb: stored abc123: '' @ [CHR 0x22] @ ''I like dark mode'' @ [CHR 0x22]),
            PushToolResult ''c2'' ''Success: store memory abc123'' False,
            Complete]\<rparr>)"
    by (simp add: evaluate_loop.simps MAX_TOOL_ITERATIONS_def call_complete_def
                  handleToolCall_def executeTool_def exec_store_def arg_String_def arg_Number_def
                  call_store_def call_pushToolResult_def emit_def recording_maker_def
                  recording_chat_def stub_ops_def stub_builtins_def store_call_def
                  dark_mode_args_def dark_mode_def Let_def)
  from 1 2 3 show ?thesis by simp
qed

subsection \<open>The bound on the rounds\<close>



subsection \<open>The index of a log entry\<close>

text \<open>
  Claim C6. Every log entry that \<open>evaluate\<close> returns has as \<open>deltaIndex\<close> the length of the
  journal's \<open>cleanContext\<close>. In the example of the specification (the journal holds the one
  message \<open>user: I like dark mode\<close>, which is the delta; the model asks for
  \<open>store_memory\<close> with that text, category \<open>preference\<close> and importance 0.8; the store
  answers \<open>abc123\<close>) the logs are the one entry with \<open>deltaIndex = 1\<close>, action \<open>store\<close>,
  memory id \<open>abc123\<close> and the text, stamped with the time of the call; this holds
  whether or not the model marks that round as done.
\<close>

theorem deltaIndex_is_context_length:
  "(\<forall>R. fst (evaluate M now jd dl d) = Inr R \<longrightarrow>
        (\<forall>l\<in>set (logs R). deltaIndex l = int (length (cleanContext jd))))
   \<and> fst (evaluate (scripted_maker
                 [Inr \<lparr>toolCalls = [store_call i dark_mode_args], resp_done = dn\<rparr>])
            t \<lparr>processedIndex = 0, cleanContext = [dark_mode], memoryLogs = []\<rparr> [dark_mode] [])
       = Inr \<lparr>logs = [\<lparr>deltaIndex = 1, action = Store, memoryId = ''abc123'',
                        log_text = ''I like dark mode'', timestamp = t\<rparr>]\<rparr>"
proof -
  have 1: "\<forall>R. fst (evaluate M now jd dl d) = Inr R \<longrightarrow>
        (\<forall>l\<in>set (logs R). deltaIndex l = int (length (cleanContext jd)))"
    using evaluate_result [of M now jd dl d] by auto
  have 2: "fst (evaluate (scripted_maker
                 [Inr \<lparr>toolCalls = [store_call i dark_mode_args], resp_done = dn\<rparr>])
            t \<lparr>processedIndex = 0, cleanContext = [dark_mode], memoryLogs = []\<rparr> [dark_mode] [])
       = Inr \<lparr>logs = [\<lparr>deltaIndex = 1, action = Store, memoryId = ''abc123'',
                        log_text = ''I like dark mode'', timestamp = t\<rparr>]\<rparr>"
    by (simp add: evaluate_def evaluate_loop.simps MAX_TOOL_ITERATIONS_def call_complete_def
                  handleToolCall_def executeTool_def exec_store_def arg_String_def arg_Number_def
                  call_store_def call_pushToolResult_def emit_def scripted_maker_def
                  scripted_chat_def stub_ops_def stub_builtins_def store_call_def
                  dark_mode_args_def dark_mode_def Let_def)
  from 1 2 show ?thesis by simp
qed

theorem deltaIndex_is_context_length_witness:
  "\<exists>l. fst (evaluate (scripted_maker
                 [Inr \<lparr>toolCalls = [store_call ''c1'' dark_mode_args], resp_done = False\<rparr>,
                  Inr \<lparr>toolCalls = [store_call ''c2'' dark_mode_args], resp_done = True\<rparr>])
            7 \<lparr>processedIndex = 1, cleanContext = [hi, dark_mode], memoryLogs = []\<rparr> [dark_mode] [])
       = Inr \<lparr>logs = [l]\<rparr> \<and> deltaIndex l = 2"
proof -
  let ?M = "scripted_maker
                 [Inr \<lparr>toolCalls = [store_call ''c1'' dark_mode_args], resp_done = False\<rparr>,
                  Inr \<lparr>toolCalls = [store_call ''c2'' dark_mode_args], resp_done = True\<rparr>]"
  let ?jd = "\<lparr>processedIndex = 1, cleanContext = [hi, dark_mode], memoryLogs = []\<rparr>"
  have E: "fst (evaluate ?M 7 ?jd [dark_mode] [])
       = Inr \<lparr>logs = [\<lparr>deltaIndex = 2, action = Store, memoryId = ''abc123'',
                        log_text = ''I like dark mode'', timestamp = 7\<rparr>]\<rparr>"
    by (simp add: evaluate_def evaluate_loop.simps MAX_TOOL_ITERATIONS_def call_complete_def
                  handleToolCall_def executeTool_def exec_store_def arg_String_def arg_Number_def
                  call_store_def call_pushToolResult_def emit_def scripted_maker_def
                  scripted_chat_def stub_ops_def stub_builtins_def store_call_def
                  dark_mode_args_def dark_mode_def Let_def)
  from deltaIndex_is_context_length [where M = ?M and now = 7 and jd = ?jd
         and dl = "[dark_mode]" and d = "[]"] E
  show ?thesis by simp
qed

subsection \<open>An empty delta\<close>

text \<open>
  Claim C7. With an empty delta \<open>evaluate\<close> returns no logs, makes no call at all (no
  adapter is built, \<open>complete\<close> is not called, no memory operation runs) and leaves the
  memory store as it is.
\<close>

theorem evaluate_empty_delta:
  "evaluate M now jd [] d = (Inr \<lparr>logs = []\<rparr>, d, [])"
  by (simp add: evaluate_def)

end
